theory Spec2Isabelle
  imports Main "HOL-Library.Sublist"
begin

section \<open>fsftosh: from a POSSUM setup file to a shell script\<close>

text \<open>
  The development embeds \<^verbatim>\<open>src/fsftosh.py\<close>. A Python \<^verbatim>\<open>str\<close> is a
  \<^typ>\<open>string\<close> whose characters stand for the code points 0 to 255; the parameter
  dictionary is a map from strings to strings; a raised exception is the left
  summand of a result.
\<close>

subsection \<open>Python strings\<close>

text \<open>The code points below 256 for which \<^verbatim>\<open>str.isspace\<close> holds; the regular
  expression class \<^verbatim>\<open>\s\<close> and \<^verbatim>\<open>str.strip\<close> use the same set.\<close>

definition isspace :: "char \<Rightarrow> bool" where
  "isspace c = (c \<in> {CHR 0x09, CHR 0x0A, CHR 0x0B, CHR 0x0C, CHR 0x0D,
                      CHR 0x1C, CHR 0x1D, CHR 0x1E, CHR 0x1F, CHR 0x20,
                      CHR 0x85, CHR 0xA0})"

text \<open>\<^verbatim>\<open>s.strip()\<close>: leading and trailing whitespace removed.\<close>

definition strip :: "string \<Rightarrow> string" where
  "strip s = rev (dropWhile isspace (rev (dropWhile isspace s)))"

text \<open>\<^verbatim>\<open>s.lower()\<close> on code points below 256: the ASCII capitals and the
  Latin-1 capitals (0xC0 to 0xDE without the multiplication sign 0xD7) move up
  by 32, every other character stays.\<close>

definition lower_char :: "char \<Rightarrow> char" where
  "lower_char c = (let n = (of_char c :: nat) in
     if (65 \<le> n \<and> n \<le> 90) \<or> (192 \<le> n \<and> n \<le> 222 \<and> n \<noteq> 215)
     then char_of (n + 32) else c)"

definition lower :: "string \<Rightarrow> string" where
  "lower s = map lower_char s"

definition dquote :: char where
  "dquote = CHR 0x22"

definition squote :: char where
  "squote = CHR 0x27"

subsection \<open>The parameter dictionary\<close>

type_synonym params = "string \<rightharpoonup> string"

text \<open>\<^verbatim>\<open>params.get(key, default)\<close>.\<close>

definition get :: "params \<Rightarrow> string \<Rightarrow> string \<Rightarrow> string" where
  "get params key dflt = (case params key of None \<Rightarrow> dflt | Some v \<Rightarrow> v)"

subsection \<open>parse_fsf\<close>

text \<open>
  The pattern of \<^verbatim>\<open>parse_fsf\<close> is
  \<^verbatim>\<open>set entries\(\$w,([^)]*)\)\s+"([^"]*)"\<close>.
  \<open>pattern_match_at\<close> is a match attempt anchored at the head of the text and
  returns the two groups. Every repetition of the pattern is followed by a
  character outside its class, so the greedy run is the only run that can
  succeed and no backtracking is lost by taking it.
\<close>

definition pattern_match_at :: "string \<Rightarrow> (string \<times> string) option" where
  "pattern_match_at s =
     (if \<not> prefix ''set entries($w,'' s then None
      else
        let r = drop 15 s;
            key = takeWhile (\<lambda>c. c \<noteq> CHR '')'') r
        in case dropWhile (\<lambda>c. c \<noteq> CHR '')'') r of
             [] \<Rightarrow> None
           | _ # r2 \<Rightarrow>
               if takeWhile isspace r2 = [] then None
               else
                 (case dropWhile isspace r2 of
                    [] \<Rightarrow> None
                  | q # r4 \<Rightarrow>
                      if q \<noteq> dquote then None
                      else
                        (case dropWhile (\<lambda>c. c \<noteq> dquote) r4 of
                           [] \<Rightarrow> None
                         | _ # _ \<Rightarrow> Some (key, takeWhile (\<lambda>c. c \<noteq> dquote) r4))))"

text \<open>\<^verbatim>\<open>pattern.search(line)\<close>: the match at the leftmost position that has
  one.\<close>

fun pattern_search :: "string \<Rightarrow> (string \<times> string) option" where
  "pattern_search [] = pattern_match_at []"
| "pattern_search (c # cs) =
     (case pattern_match_at (c # cs) of
        Some g \<Rightarrow> Some g
      | None \<Rightarrow> pattern_search cs)"

text \<open>The body of the loop over the lines of the file: a line with a match
  binds the stripped first group to the stripped second group.\<close>

definition parse_line :: "params \<Rightarrow> string \<Rightarrow> params" where
  "parse_line params line =
     (case pattern_search line of
        None \<Rightarrow> params
      | Some (key, val) \<Rightarrow> params(strip key \<mapsto> strip val))"

text \<open>\<^verbatim>\<open>parse_fsf\<close>, on the lines that iterating over the open file yields.\<close>

definition parse_fsf :: "string list \<Rightarrow> params" where
  "parse_fsf lines = foldl parse_line Map.empty lines"

subsection \<open>What the pattern matches\<close>

text \<open>
  The language of the pattern, read off the regular expression: after the text
  \<open>pre\<close>, the literal \<^verbatim>\<open>set entries($w,\<close>, a group without a closing
  parenthesis, the parenthesis, one or more whitespace characters, and a
  second group without a double quote between two double quotes.
\<close>

definition pattern_occurs :: "string \<Rightarrow> string \<Rightarrow> string \<Rightarrow> string \<Rightarrow> bool" where
  "pattern_occurs pre key val line \<longleftrightarrow>
     (\<exists>ws post. ws \<noteq> [] \<and> (\<forall>c \<in> set ws. isspace c) \<and> CHR '')'' \<notin> set key
        \<and> dquote \<notin> set val
        \<and> line = pre @ ''set entries($w,'' @ key @ '')'' @ ws @ [dquote] @ val @ [dquote] @ post)"

text \<open>The binding that a line contributes to the dictionary, if any.\<close>

definition line_entry :: "string \<Rightarrow> (string \<times> string) option" where
  "line_entry line = map_option (\<lambda>(key, val). (strip key, strip val)) (pattern_search line)"

subsection \<open>Exceptions\<close>

datatype error = ValueError | ZeroDivisionError | OverflowError

definition bind_err :: "error + 'a \<Rightarrow> ('a \<Rightarrow> error + 'b) \<Rightarrow> error + 'b" where
  "bind_err m f = (case m of Inl e \<Rightarrow> Inl e | Inr x \<Rightarrow> f x)"

subsection \<open>Python floats: IEEE 754 binary64\<close>

text \<open>
  \<open>Finite neg m e\<close> is the double of sign \<open>neg\<close> and magnitude \<open>m * 2 ^ e\<close>, kept
  in the form the format stores: \<open>2 ^ 52 \<le> m < 2 ^ 53\<close> with
  \<open>- 1074 \<le> e \<le> 971\<close> for a normal number, \<open>0 < m < 2 ^ 52\<close> with
  \<open>e = - 1074\<close> for a subnormal one, and \<open>m = 0\<close>, \<open>e = 0\<close> for the two zeros.
\<close>

datatype pyfloat = Finite bool int int | Infinity bool | NaN

function bitlen :: "int \<Rightarrow> int" where
  "bitlen n = (if n \<le> 0 then 0 else 1 + bitlen (n div 2))"
  by pat_completeness auto
termination
  by (relation "measure nat") auto

declare bitlen.simps [simp del]

text \<open>The integer nearest to \<open>n / d\<close>, the even one of two nearest.\<close>

definition round_half_even :: "int \<Rightarrow> int \<Rightarrow> int" where
  "round_half_even n d =
     (let q = n div d; r = n mod d in
      if 2 * r < d then q
      else if d < 2 * r then q + 1
      else if even q then q else q + 1)"

text \<open>The \<open>t\<close> with \<open>2 ^ t \<le> n / d < 2 ^ (t + 1)\<close>, for positive \<open>n\<close> and \<open>d\<close>.\<close>

definition floor_log2 :: "int \<Rightarrow> int \<Rightarrow> int" where
  "floor_log2 n d =
     (let t = bitlen n - bitlen d in
      if d * 2 ^ nat t \<le> n * 2 ^ nat (- t) then t else t - 1)"

text \<open>The double nearest to the rational \<open>n / d\<close> (\<open>0 \<le> n\<close>, \<open>0 < d\<close>) under
  round-to-nearest, ties to even, with gradual underflow and overflow to
  infinity: the rounding of every arithmetic operation and of the conversion
  from a decimal string.\<close>

definition round_double :: "bool \<Rightarrow> int \<Rightarrow> int \<Rightarrow> pyfloat" where
  "round_double neg n d =
     (if n = 0 then Finite neg 0 0
      else
        let e = max (floor_log2 n d - 52) (- 1074);
            m = round_half_even (n * 2 ^ nat (- e)) (d * 2 ^ nat e);
            (m', e') = (if m = 2 ^ 53 then (2 ^ 52, e + 1) else (m, e))
        in if 971 < e' then Infinity neg
           else if m' = 0 then Finite neg 0 0
           else Finite neg m' e')"

subsection \<open>Conversions between strings and numbers\<close>

definition is_digit :: "char \<Rightarrow> bool" where
  "is_digit c = (c \<in> set ''0123456789'')"

definition digit_val :: "char \<Rightarrow> int" where
  "digit_val c = int (of_char c) - 48"

definition digits_val :: "string \<Rightarrow> int" where
  "digits_val s = foldl (\<lambda>a c. 10 * a + digit_val c) 0 s"

text \<open>\<^verbatim>\<open>float(s)\<close> and \<^verbatim>\<open>int(s)\<close> first turn every non-ASCII whitespace
  character into a blank and then skip the whitespace of the C locale at both
  ends, so the four separators 0x1C to 0x1F are not skipped.\<close>

definition c_isspace :: "char \<Rightarrow> bool" where
  "c_isspace c = (c \<in> {CHR 0x09, CHR 0x0A, CHR 0x0B, CHR 0x0C, CHR 0x0D, CHR 0x20,
                        CHR 0x85, CHR 0xA0})"

definition number_strip :: "string \<Rightarrow> string" where
  "number_strip s = rev (dropWhile c_isspace (rev (dropWhile c_isspace s)))"

text \<open>An underscore is accepted only between two digits; \<open>prev\<close> is the
  character before the rest of the text.\<close>

fun strip_underscores :: "char \<Rightarrow> string \<Rightarrow> string option" where
  "strip_underscores prev [] = (if prev = CHR ''_'' then None else Some [])"
| "strip_underscores prev (c # cs) =
     (if c = CHR ''_'' then
        (if is_digit prev then strip_underscores c cs else None)
      else if prev = CHR ''_'' \<and> \<not> is_digit c then None
      else map_option ((#) c) (strip_underscores c cs))"

definition split_sign :: "string \<Rightarrow> bool \<times> string" where
  "split_sign s =
     (case s of
        [] \<Rightarrow> (False, [])
      | c # cs \<Rightarrow> if c = CHR ''-'' then (True, cs)
                  else if c = CHR ''+'' then (False, cs)
                  else (False, s))"

definition parse_exponent :: "string \<Rightarrow> int option" where
  "parse_exponent s =
     (let (neg, ds) = split_sign s in
      if ds = [] \<or> \<not> list_all is_digit ds then None
      else Some (if neg then - digits_val ds else digits_val ds))"

text \<open>A decimal literal, digits with an optional point and an optional
  exponent and at least one digit before the exponent, as the pair
  \<open>(digs, ex)\<close> of value \<open>digs * 10 ^ ex\<close>.\<close>

definition parse_decimal :: "string \<Rightarrow> (int \<times> int) option" where
  "parse_decimal s =
     (let ip = takeWhile is_digit s;
          r1 = dropWhile is_digit s;
          (fp, r2) = (case r1 of
                        [] \<Rightarrow> ([], r1)
                      | c # t \<Rightarrow> if c = CHR ''.''
                                 then (takeWhile is_digit t, dropWhile is_digit t)
                                 else ([], r1))
      in if ip = [] \<and> fp = [] then None
         else
           (case r2 of
              [] \<Rightarrow> Some (digits_val (ip @ fp), - int (length fp))
            | c # t \<Rightarrow>
                if c = CHR ''e'' \<or> c = CHR ''E'' then
                  map_option (\<lambda>x. (digits_val (ip @ fp), x - int (length fp)))
                    (parse_exponent t)
                else None))"

text \<open>\<^verbatim>\<open>float(s)\<close> of a string: \<^verbatim>\<open>ValueError\<close> unless the text is a
  signed decimal literal, an infinity or a NaN; the value is rounded
  correctly.\<close>

definition py_float :: "string \<Rightarrow> error + pyfloat" where
  "py_float s =
     (case strip_underscores (CHR 0x00) (number_strip s) of
        None \<Rightarrow> Inl ValueError
      | Some u \<Rightarrow>
          let (neg, body) = split_sign u in
          (case parse_decimal body of
             Some (digs, ex) \<Rightarrow>
               Inr (round_double neg (digs * 10 ^ nat ex) (10 ^ nat (- ex)))
           | None \<Rightarrow>
               if lower body = ''inf'' \<or> lower body = ''infinity'' then Inr (Infinity neg)
               else if lower body = ''nan'' then Inr NaN
               else Inl ValueError))"

text \<open>\<^verbatim>\<open>int(s)\<close> of a string, base ten. CPython's limit on the number of
  digits of the literal (4300 by default since 3.11) is not part of the
  model.\<close>

definition py_int_of_str :: "string \<Rightarrow> error + int" where
  "py_int_of_str s =
     (let (neg, body) = split_sign (number_strip s) in
      case strip_underscores (CHR 0x00) body of
        None \<Rightarrow> Inl ValueError
      | Some ds \<Rightarrow>
          if ds = [] \<or> \<not> list_all is_digit ds then Inl ValueError
          else Inr (if neg then - digits_val ds else digits_val ds))"


text \<open>\<^verbatim>\<open>a * b\<close> on floats never raises.\<close>

definition float_mul :: "pyfloat \<Rightarrow> pyfloat \<Rightarrow> pyfloat" where
  "float_mul a b =
     (case (a, b) of
        (NaN, _) \<Rightarrow> NaN
      | (_, NaN) \<Rightarrow> NaN
      | (Infinity s1, Infinity s2) \<Rightarrow> Infinity (s1 \<noteq> s2)
      | (Infinity s1, Finite s2 m2 e2) \<Rightarrow> if m2 = 0 then NaN else Infinity (s1 \<noteq> s2)
      | (Finite s1 m1 e1, Infinity s2) \<Rightarrow> if m1 = 0 then NaN else Infinity (s1 \<noteq> s2)
      | (Finite s1 m1 e1, Finite s2 m2 e2) \<Rightarrow>
          round_double (s1 \<noteq> s2) (m1 * m2 * 2 ^ nat (e1 + e2)) (2 ^ nat (- (e1 + e2))))"

text \<open>\<^verbatim>\<open>a / b\<close> on floats raises \<^verbatim>\<open>ZeroDivisionError\<close> for every \<open>a\<close> when
  \<open>b\<close> is a zero.\<close>

definition float_truediv :: "pyfloat \<Rightarrow> pyfloat \<Rightarrow> error + pyfloat" where
  "float_truediv a b =
     (case (a, b) of
        (_, Finite s2 m2 e2) \<Rightarrow>
          if m2 = 0 then Inl ZeroDivisionError
          else
            (case a of
               NaN \<Rightarrow> Inr NaN
             | Infinity s1 \<Rightarrow> Inr (Infinity (s1 \<noteq> s2))
             | Finite s1 m1 e1 \<Rightarrow>
                 Inr (round_double (s1 \<noteq> s2) (m1 * 2 ^ nat (e1 - e2)) (m2 * 2 ^ nat (e2 - e1))))
      | (NaN, _) \<Rightarrow> Inr NaN
      | (_, NaN) \<Rightarrow> Inr NaN
      | (Infinity s1, Infinity s2) \<Rightarrow> Inr NaN
      | (Finite s1 m1 e1, Infinity s2) \<Rightarrow> Inr (Finite (s1 \<noteq> s2) 0 0))"

text \<open>\<^verbatim>\<open>round(x)\<close> with one argument: the nearest integer, ties to the even
  one.\<close>

definition py_round :: "pyfloat \<Rightarrow> error + int" where
  "py_round x =
     (case x of
        NaN \<Rightarrow> Inl ValueError
      | Infinity _ \<Rightarrow> Inl OverflowError
      | Finite neg m e \<Rightarrow>
          let r = round_half_even (m * 2 ^ nat e) (2 ^ nat (- e))
          in Inr (if neg then - r else r))"

text \<open>\<^verbatim>\<open>int(x)\<close> of a float truncates towards zero.\<close>

definition py_int_of_float :: "pyfloat \<Rightarrow> error + int" where
  "py_int_of_float x =
     (case x of
        NaN \<Rightarrow> Inl ValueError
      | Infinity _ \<Rightarrow> Inl OverflowError
      | Finite neg m e \<Rightarrow>
          let t = (m * 2 ^ nat e) div (2 ^ nat (- e))
          in Inr (if neg then - t else t))"

text \<open>The decimal digits of a natural number, and \<^verbatim>\<open>str(n)\<close> of an
  integer.\<close>

function decimal :: "int \<Rightarrow> string" where
  "decimal n = (if n < 10 then [''0123456789'' ! nat n]
                else decimal (n div 10) @ [''0123456789'' ! nat (n mod 10)])"
  by pat_completeness auto
termination
  by (relation "measure nat") auto
declare decimal.simps [simp del]

definition py_str_int :: "int \<Rightarrow> string" where
  "py_str_int n = (if n < 0 then ''-'' @ decimal (- n) else decimal n)"

text \<open>
  \<^verbatim>\<open>repr(x)\<close> of a float, which is also what an f-string field shows: the
  shortest digit string that \<^verbatim>\<open>float\<close> reads back as \<open>x\<close>, the nearest to
  \<open>x\<close> among the shortest, laid out with an exponent when the decimal point
  \<open>decpt\<close> (the value is \<open>0.d\<^sub>1d\<^sub>2\<dots> * 10 ^ decpt\<close>) is at most \<open>- 4\<close> or
  above 16. \<open>decimal_point n d\<close> is the \<open>p\<close> with
  \<open>10 ^ (p - 1) \<le> n / d < 10 ^ p\<close>; \<open>try_digits\<close> looks for a \<open>k\<close>-digit
  string among the two \<open>k\<close>-digit neighbours of the value.
\<close>

definition decimal_point :: "int \<Rightarrow> int \<Rightarrow> int" where
  "decimal_point n d =
     (let p = int (length (decimal n)) - int (length (decimal d)) in
      if d * 10 ^ nat p \<le> n * 10 ^ nat (- p) then p + 1 else p)"

definition strip_zeros :: "string \<Rightarrow> string" where
  "strip_zeros ds = rev (dropWhile (\<lambda>c. c = CHR ''0'') (rev ds))"

definition try_digits :: "pyfloat \<Rightarrow> int \<Rightarrow> int \<Rightarrow> int \<Rightarrow> int \<Rightarrow> (string \<times> int) option" where
  "try_digits x n d p k =
     (let sn = n * 10 ^ nat (k - p);
          sd = d * 10 ^ nat (p - k);
          lo = sn div sd;
          hi = lo + 1;
          r = sn mod sd;
          ok = (\<lambda>c. round_double False (c * 10 ^ nat (p - k)) (10 ^ nat (k - p)) = x);
          pick = (\<lambda>c. Some (strip_zeros (decimal c), p + int (length (decimal c)) - k))
      in if ok lo \<and> ok hi then
           (if 2 * r < sd then pick lo
            else if sd < 2 * r then pick hi
            else if even lo then pick lo else pick hi)
         else if ok lo then pick lo
         else if ok hi then pick hi
         else None)"

fun find_digits :: "pyfloat \<Rightarrow> int \<Rightarrow> int \<Rightarrow> int \<Rightarrow> int list \<Rightarrow> string \<times> int" where
  "find_digits x n d p [] = (decimal ((n * 10 ^ nat (17 - p)) div (d * 10 ^ nat (p - 17))), p)"
| "find_digits x n d p (k # ks) =
     (case try_digits x n d p k of
        Some r \<Rightarrow> r
      | None \<Rightarrow> find_digits x n d p ks)"

definition shortest_digits :: "int \<Rightarrow> int \<Rightarrow> string \<times> int" where
  "shortest_digits m e =
     (let n = m * 2 ^ nat e; d = 2 ^ nat (- e)
      in find_digits (Finite False m e) n d (decimal_point n d) [1..17])"

definition format_repr :: "string \<Rightarrow> int \<Rightarrow> string" where
  "format_repr ds decpt =
     (if decpt \<le> - 4 \<or> 16 < decpt then
        take 1 ds @ (if 1 < length ds then ''.'' @ drop 1 ds else [])
        @ ''e'' @ (if decpt - 1 < 0 then ''-'' else ''+'')
        @ (if \<bar>decpt - 1\<bar> < 10 then ''0'' else []) @ decimal \<bar>decpt - 1\<bar>
      else if decpt \<le> 0 then ''0.'' @ replicate (nat (- decpt)) (CHR ''0'') @ ds
      else if int (length ds) \<le> decpt then
        ds @ replicate (nat (decpt - int (length ds))) (CHR ''0'') @ ''.0''
      else take (nat decpt) ds @ ''.'' @ drop (nat decpt) ds)"

fun repr_digits :: "string \<times> int \<Rightarrow> string" where
  "repr_digits (ds, decpt) = format_repr ds decpt"

fun py_repr_float :: "pyfloat \<Rightarrow> string" where
  "py_repr_float NaN = ''nan''"
| "py_repr_float (Infinity neg) = (if neg then ''-inf'' else ''inf'')"
| "py_repr_float (Finite neg m e) =
     (if neg then ''-'' else [])
     @ (if m = 0 then ''0.0'' else repr_digits (shortest_digits m e))"

subsection \<open>compute_brain_ref\<close>

text \<open>A dimension of the reference image is a float where it is passed
  through from the input and an integer where \<^verbatim>\<open>round\<close> produced it; an
  f-string field shows the one with \<^verbatim>\<open>repr\<close> and the other with \<^verbatim>\<open>str\<close>.\<close>

datatype pynum = PyInt int | PyFloat pyfloat

fun format_num :: "pynum \<Rightarrow> string" where
  "format_num (PyInt n) = py_str_int n"
| "format_num (PyFloat x) = py_repr_float x"

text \<open>The tuple that \<^verbatim>\<open>compute_brain_ref\<close> returns, in the order of its
  components.\<close>

record brain_ref =
  newdim1 :: pynum
  newdim2 :: pynum
  newdim3 :: pynum
  inNt :: string
  newpixdim1 :: pyfloat
  newpixdim2 :: pyfloat
  newpixdim3 :: pyfloat
  pixdim4 :: string

text \<open>The default of an \<^verbatim>\<open>outsize_n\<close> key is \<^verbatim>\<open>str(int(inN))\<close>, computed
  before the lookup, so that an infinite or NaN input dimension raises even
  when the key is present.\<close>

definition outsize_n :: "params \<Rightarrow> string \<Rightarrow> pyfloat \<Rightarrow> error + int" where
  "outsize_n params key inN =
     bind_err (py_int_of_float inN) (\<lambda>i. py_int_of_str (get params key (py_str_int i)))"

definition compute_brain_ref :: "params \<Rightarrow> error + brain_ref" where
  "compute_brain_ref params =
     bind_err (py_float (get params ''inNx'' ''0'')) (\<lambda>inNx.
     bind_err (py_float (get params ''inNy'' ''0'')) (\<lambda>inNy.
     bind_err (py_float (get params ''inNz'' ''0'')) (\<lambda>inNz.
     let inNt = get params ''inNt'' ''1'' in
     bind_err (py_float (get params ''vcX'' ''1'')) (\<lambda>vcX.
     bind_err (py_float (get params ''vcY'' ''1'')) (\<lambda>vcY.
     bind_err (py_float (get params ''vcZ'' ''1'')) (\<lambda>vcZ.
     bind_err (outsize_n params ''outsize_nx'' inNx) (\<lambda>outsize_nx.
     bind_err (outsize_n params ''outsize_ny'' inNy) (\<lambda>outsize_ny.
     bind_err (outsize_n params ''outsize_nz'' inNz) (\<lambda>outsize_nz.
     bind_err (py_float (get params ''outsize_dx'' ''1'')) (\<lambda>outsize_dx.
     bind_err (py_float (get params ''outsize_dy'' ''1'')) (\<lambda>outsize_dy.
     bind_err (py_float (get params ''outsize_dz'' ''1'')) (\<lambda>outsize_dz.
     bind_err (py_float (get params ''slcsampfactor'' ''1'')) (\<lambda>slcsampfactor.
     let slcselect = get params ''slcselect'' ''z'';
         pixdim4 = get params ''inNt'' ''1''
     in
       if lower slcselect = ''x'' then
         bind_err (float_truediv outsize_dx slcsampfactor) (\<lambda>newpixdim1.
         bind_err (float_truediv (float_mul inNx vcX) newpixdim1) (\<lambda>q.
         bind_err (py_round q) (\<lambda>newdim1.
         Inr \<lparr>newdim1 = PyInt newdim1, newdim2 = PyFloat inNy, newdim3 = PyFloat inNz,
              inNt = inNt, newpixdim1 = newpixdim1, newpixdim2 = vcY, newpixdim3 = vcZ,
              pixdim4 = pixdim4\<rparr>)))
       else if lower slcselect = ''y'' then
         bind_err (float_truediv outsize_dy slcsampfactor) (\<lambda>newpixdim2.
         bind_err (float_truediv (float_mul inNy vcY) newpixdim2) (\<lambda>q.
         bind_err (py_round q) (\<lambda>newdim2.
         Inr \<lparr>newdim1 = PyFloat inNx, newdim2 = PyInt newdim2, newdim3 = PyFloat inNz,
              inNt = inNt, newpixdim1 = vcX, newpixdim2 = newpixdim2, newpixdim3 = vcZ,
              pixdim4 = pixdim4\<rparr>)))
       else
         bind_err (float_truediv outsize_dz slcsampfactor) (\<lambda>newpixdim3.
         bind_err (float_truediv (float_mul inNz vcZ) newpixdim3) (\<lambda>q.
         bind_err (py_round q) (\<lambda>newdim3.
         Inr \<lparr>newdim1 = PyFloat inNx, newdim2 = PyFloat inNy, newdim3 = PyInt newdim3,
              inNt = inNt, newpixdim1 = vcX, newpixdim2 = vcY, newpixdim3 = newpixdim3,
              pixdim4 = pixdim4\<rparr>))))))))))))))))"

subsection \<open>generate_shell_commands\<close>

text \<open>
  The function reads its parameters, calls \<^verbatim>\<open>compute_brain_ref\<close> and then
  appends to \<^verbatim>\<open>cmds\<close> block by block. Each block of the source is
  defined on its own here, as the list of the commands it appends, in the order
  of the source; the interpolated values are inserted as they are.
\<close>

definition FSLDIR :: "params \<Rightarrow> string" where
  "FSLDIR params = get params ''FSLDIR'' ''/usr/local/fsl''"

definition POSSUMDIR :: "params \<Rightarrow> string" where
  "POSSUMDIR params = get params ''POSSUMDIR'' (FSLDIR params)"

definition out :: "params \<Rightarrow> string" where
  "out params = get params ''out'' ''./simdir''"

text \<open>Create the output directory; create the brain reference and register
  the input object.\<close>

definition mkdir_cmd :: "params \<Rightarrow> string" where
  "mkdir_cmd params = ''mkdir -p '' @ out params"

definition fslcreatehd_cmd :: "params \<Rightarrow> brain_ref \<Rightarrow> string" where
  "fslcreatehd_cmd params r =
     FSLDIR params @ ''/bin/fslcreatehd '' @ format_num (newdim1 r) @ '' ''
     @ format_num (newdim2 r) @ '' '' @ format_num (newdim3 r) @ '' '' @ inNt r @ '' ''
     @ py_repr_float (newpixdim1 r) @ '' '' @ py_repr_float (newpixdim2 r) @ '' ''
     @ py_repr_float (newpixdim3 r) @ '' '' @ pixdim4 r @ '' 0 0 0 16 ''
     @ out params @ ''/brainref''"

definition flirt_cmd :: "params \<Rightarrow> string \<Rightarrow> string \<Rightarrow> string" where
  "flirt_cmd params src dst =
     FSLDIR params @ ''/bin/flirt -in '' @ src @ '' -ref '' @ out params
     @ ''/brainref -applyxfm -out '' @ out params @ ''/'' @ dst"

definition object_cmds :: "params \<Rightarrow> brain_ref \<Rightarrow> string list" where
  "object_cmds params r =
     [mkdir_cmd params, fslcreatehd_cmd params r,
      flirt_cmd params (get params ''obvol'' []) ''brain'']"

text \<open>Copy MRpar, slice profile and motion file, each when its path is not
  empty.\<close>

definition cp_cmd :: "params \<Rightarrow> string \<Rightarrow> string \<Rightarrow> string" where
  "cp_cmd params src dst = ''cp '' @ src @ '' '' @ out params @ ''/'' @ dst"

definition optional_cp :: "params \<Rightarrow> string \<Rightarrow> string \<Rightarrow> string list" where
  "optional_cp params key dst =
     (if get params key [] \<noteq> [] then [cp_cmd params (get params key []) dst] else [])"

definition mrpar_cmds :: "params \<Rightarrow> string list" where
  "mrpar_cmds params = optional_cp params ''mrpar'' ''MRpar''"

definition slcprof_cmds :: "params \<Rightarrow> string list" where
  "slcprof_cmds params = optional_cp params ''slcprof'' ''slcprof''"

definition mot_cmds :: "params \<Rightarrow> string list" where
  "mot_cmds params = optional_cp params ''mot'' ''motion''"

text \<open>Activation: register the image, copy the timecourse.\<close>

definition act1_cmds :: "params \<Rightarrow> string list" where
  "act1_cmds params =
     (if get params ''act1'' [] \<noteq> []
      then [flirt_cmd params (get params ''act1'' []) ''T2''] else [])"

definition act2_cmds :: "params \<Rightarrow> string list" where
  "act2_cmds params = optional_cp params ''act2'' ''T2timecourse''"

text \<open>The B0 inhomogeneity file: register, extract one slice, and scale when
  the units are ppm.\<close>

definition fslroi_cmd :: "params \<Rightarrow> string" where
  "fslroi_cmd params =
     FSLDIR params @ ''/bin/fslroi '' @ out params @ ''/b0newref '' @ out params
     @ ''/b0z_dz.nii.gz 0 1''"

definition fslmaths_cmd :: "params \<Rightarrow> string" where
  "fslmaths_cmd params =
     FSLDIR params @ ''/bin/fslmaths '' @ out params @ ''/b0z_dz.nii.gz -mul ''
     @ get params ''b0fieldstrength'' ''1.5'' @ '' -div 1000000 '' @ out params
     @ ''/b0z_dz.nii.gz''"

definition b0f_cmds :: "params \<Rightarrow> string list" where
  "b0f_cmds params =
     (if get params ''b0f'' [] \<noteq> [] then
        [flirt_cmd params (get params ''b0f'' []) ''b0newref'', fslroi_cmd params]
        @ (if lower (get params ''b0units'' ''ppm'') = ''ppm''
           then [fslmaths_cmd params] else [])
      else [])"

text \<open>The pulse sequence: one \<^verbatim>\<open>pulse\<close> command for an epi or ge
  sequence, with \<^verbatim>\<open>--trslc\<close> for epi only; the copies of a custom pulse and
  its companion files otherwise.\<close>

definition pulse_head :: "params \<Rightarrow> string" where
  "pulse_head params =
     POSSUMDIR params @ ''/bin/pulse -i '' @ out params @ ''/brain -o '' @ out params
     @ ''/pulse --seq='' @ get params ''seqtype'' ''epi''
     @ '' --te='' @ get params ''te'' ''0.03''
     @ '' --tr='' @ get params ''tr'' ''3'' @ '' ''"

definition pulse_trslc :: "params \<Rightarrow> string" where
  "pulse_trslc params =
     (if lower (get params ''seqtype'' ''epi'') = ''epi''
      then ''--trslc='' @ get params ''trslc'' ''0.12'' @ '' '' else [])"

definition pulse_plane :: "params \<Rightarrow> string" where
  "pulse_plane params =
     ''--nx='' @ get params ''outsize_nx'' ''64''
     @ '' --ny='' @ get params ''outsize_ny'' ''64''
     @ '' --numslc='' @ get params ''outsize_nz'' ''1''
     @ '' --dx='' @ get params ''outsize_dx'' ''4.0''
     @ '' --dy='' @ get params ''outsize_dy'' ''4.0''"

definition pulse_rest :: "params \<Rightarrow> string" where
  "pulse_rest params =
     '' --numvol='' @ get params ''numvol'' ''1''
     @ '' --zstart=0 --bw='' @ get params ''bw'' ''100000''
     @ '' --readdir='' @ get params ''readgrad'' ''x'' @ get params ''plus'' ''+''
     @ '' --phasedir='' @ get params ''phencode'' ''y'' @ get params ''plus'' ''+''
     @ '' --slcdir='' @ get params ''slcselect'' ''z'' @ get params ''plus'' ''+''
     @ '' --maxG='' @ get params ''maxG'' ''0.055''
     @ '' --riset='' @ get params ''riseT'' ''0.00022'' @ '' -v''"

definition pulse_tail :: "params \<Rightarrow> brain_ref \<Rightarrow> string" where
  "pulse_tail params r =
     pulse_plane params @ '' --slcthk='' @ py_repr_float (newpixdim3 r) @ pulse_rest params"

definition pulse_cmd :: "params \<Rightarrow> brain_ref \<Rightarrow> string" where
  "pulse_cmd params r =
     pulse_head params @ pulse_trslc params @ pulse_tail params r
     @ '' >> '' @ out params @ ''/possum.log 2>&1''"

definition pulse_exts :: "string list" where
  "pulse_exts = [[], ''.info'', ''.readme'', ''.posx'', ''.posy'', ''.posz'', ''.com'']"

definition cuspulse_cmd :: "params \<Rightarrow> string \<Rightarrow> string" where
  "cuspulse_cmd params ext =
     ''cp '' @ get params ''cuspulse'' [] @ ext @ '' '' @ out params @ ''/pulse'' @ ext"

definition pulse_cmds :: "params \<Rightarrow> brain_ref \<Rightarrow> string list" where
  "pulse_cmds params r =
     (if lower (get params ''seqtype'' ''epi'') \<in> set [''epi'', ''ge'']
      then [pulse_cmd params r]
      else if get params ''cuspulse'' [] \<noteq> []
           then map (cuspulse_cmd params) pulse_exts
           else [])"

text \<open>The noise file.\<close>

definition noise_line :: "params \<Rightarrow> string" where
  "noise_line params =
     (if lower (get params ''noiseunits'' ''sigma'') = ''snr''
      then ''snr '' @ get params ''noisesnr'' ''10''
      else ''sigma '' @ get params ''noisesigma'' ''0'')"

definition noise_cmd :: "params \<Rightarrow> string" where
  "noise_cmd params =
     ''echo '' @ [dquote] @ noise_line params @ [dquote] @ '' > '' @ out params @ ''/noise''"

definition noise_cmds :: "params \<Rightarrow> string list" where
  "noise_cmds params =
     (if get params ''noise_yn'' ''0'' = ''1'' then [noise_cmd params] else [])"

text \<open>The simulation command and the marker of the setup file.\<close>

definition possumX_cmd :: "params \<Rightarrow> string" where
  "possumX_cmd params =
     POSSUMDIR params @ ''/bin/possumX '' @ out params
     @ '' -n '' @ get params ''numproc'' ''1''
     @ '' -t '' @ get params ''proctime'' ''0''
     @ '' -s '' @ get params ''segs'' ''10000''
     @ '' >> '' @ out params @ ''/possum.log 2>&1''"

definition fsf_cmd :: "params \<Rightarrow> string" where
  "fsf_cmd params =
     ''echo '' @ [squote] @ ''POSSUM setup file generated.'' @ [squote] @ '' > ''
     @ out params @ ''/possum.fsf''"

definition final_cmds :: "params \<Rightarrow> string list" where
  "final_cmds params = [possumX_cmd params, fsf_cmd params]"

definition generate_shell_commands :: "params \<Rightarrow> error + string list" where
  "generate_shell_commands params =
     bind_err (compute_brain_ref params) (\<lambda>r.
       Inr (object_cmds params r
            @ mrpar_cmds params @ slcprof_cmds params @ mot_cmds params
            @ act1_cmds params @ act2_cmds params
            @ b0f_cmds params
            @ pulse_cmds params r
            @ noise_cmds params
            @ final_cmds params))"


subsection \<open>Recognising commands\<close>

text \<open>A command that writes to the noise file ends with the redirection to
  it; a copy into the pulse family is a \<^verbatim>\<open>cp\<close> whose target is the pulse file
  or one of its companions; the scaling of the extracted field slice ends with
  the division and the slice as target.\<close>

definition writes_noise :: "params \<Rightarrow> string \<Rightarrow> bool" where
  "writes_noise params c \<longleftrightarrow> suffix ('' > '' @ out params @ ''/noise'') c"

definition is_pulse_copy :: "params \<Rightarrow> string \<Rightarrow> bool" where
  "is_pulse_copy params c \<longleftrightarrow>
     prefix ''cp '' c
     \<and> (\<exists>ext \<in> set pulse_exts. suffix ('' '' @ out params @ ''/pulse'' @ ext) c)"

definition is_scaling :: "params \<Rightarrow> string \<Rightarrow> bool" where
  "is_scaling params c \<longleftrightarrow> suffix ('' -div 1000000 '' @ out params @ ''/b0z_dz.nii.gz'') c"

text \<open>The optional file parameters, each with the block of commands that its
  presence guards.\<close>

definition optional_blocks :: "(string \<times> (params \<Rightarrow> string list)) list" where
  "optional_blocks =
     [(''mrpar'', mrpar_cmds), (''slcprof'', slcprof_cmds), (''mot'', mot_cmds),
      (''act1'', act1_cmds), (''act2'', act2_cmds), (''b0f'', b0f_cmds)]"

text \<open>The texts that the \<^verbatim>\<open>pulse\<close> command interpolates, next to the sequence
  type and the slice thickness; a gradient direction and its polarity sign
  stand side by side and make one text.\<close>

definition pulse_values :: "params \<Rightarrow> string list" where
  "pulse_values params =
     [POSSUMDIR params, out params,
      get params ''te'' ''0.03'', get params ''tr'' ''3'',
      get params ''outsize_nx'' ''64'', get params ''outsize_ny'' ''64'',
      get params ''outsize_nz'' ''1'', get params ''outsize_dx'' ''4.0'',
      get params ''outsize_dy'' ''4.0'', get params ''numvol'' ''1'',
      get params ''bw'' ''100000'',
      get params ''readgrad'' ''x'' @ get params ''plus'' ''+'',
      get params ''phencode'' ''y'' @ get params ''plus'' ''+'',
      get params ''slcselect'' ''z'' @ get params ''plus'' ''+'',
      get params ''maxG'' ''0.055'', get params ''riseT'' ''0.00022'']"

subsection \<open>Concrete inputs\<close>

text \<open>The line \<^verbatim>\<open>set entries($w,k) " v "\<close>, whose quoted text has a blank at
  each end, a line without the pattern, and two lines that set the same key.\<close>

definition padded_line :: string where
  "padded_line = ''set entries($w,k) '' @ [dquote] @ '' v '' @ [dquote]"

definition comment_line :: string where
  "comment_line = ''# POSSUM setup file''"

definition tr_line_3 :: string where
  "tr_line_3 = ''set entries($w,tr) '' @ [dquote] @ ''3'' @ [dquote]"

definition tr_line_5 :: string where
  "tr_line_5 = ''set entries($w,tr) '' @ [dquote] @ ''5'' @ [dquote]"

text \<open>The scenario of the specification: input dimensions (64, 64, 30), input
  voxel sizes (3.0, 3.0, 3.0), output size (64, 64, 30), output voxel sizes
  (3.0, 3.0, 4.0), sampling factor 1, slice selection z; and the tuple that
  \<^verbatim>\<open>compute_brain_ref\<close> returns for it, whose floats are 64, 64, 3, 3 and 4.\<close>

definition scenario_params :: params where
  "scenario_params = map_of
     [(''inNx'', ''64''), (''inNy'', ''64''), (''inNz'', ''30''),
      (''vcX'', ''3.0''), (''vcY'', ''3.0''), (''vcZ'', ''3.0''),
      (''outsize_nx'', ''64''), (''outsize_ny'', ''64''), (''outsize_nz'', ''30''),
      (''outsize_dx'', ''3.0''), (''outsize_dy'', ''3.0''), (''outsize_dz'', ''4.0''),
      (''slcsampfactor'', ''1''), (''slcselect'', ''z'')]"

definition scenario_ref :: brain_ref where
  "scenario_ref =
     \<lparr>newdim1 = PyFloat (Finite False 4503599627370496 (- 46)),
      newdim2 = PyFloat (Finite False 4503599627370496 (- 46)),
      newdim3 = PyInt 22,
      inNt = ''1'',
      newpixdim1 = Finite False 6755399441055744 (- 51),
      newpixdim2 = Finite False 6755399441055744 (- 51),
      newpixdim3 = Finite False 4503599627370496 (- 50),
      pixdim4 = ''1''\<rparr>"

text \<open>The tuple that \<^verbatim>\<open>compute_brain_ref\<close> returns when no geometry parameter
  is set: dimensions 0.0, 0.0 and 0, voxel sizes 1.0; and dictionaries that set
  the noise, the custom pulse, the field file and the MR parameter file.\<close>

definition default_ref :: brain_ref where
  "default_ref =
     \<lparr>newdim1 = PyFloat (Finite False 0 0),
      newdim2 = PyFloat (Finite False 0 0),
      newdim3 = PyInt 0,
      inNt = ''1'',
      newpixdim1 = Finite False 4503599627370496 (- 52),
      newpixdim2 = Finite False 4503599627370496 (- 52),
      newpixdim3 = Finite False 4503599627370496 (- 52),
      pixdim4 = ''1''\<rparr>"

definition noise_params :: params where
  "noise_params = map_of [(''noise_yn'', ''1''), (''noiseunits'', ''SNR'')]"

definition custom_params :: params where
  "custom_params = map_of [(''seqtype'', ''custom''), (''cuspulse'', ''/p/pulse'')]"

definition b0_params :: params where
  "b0_params = map_of [(''b0f'', ''b0.nii.gz'')]"

definition mrpar_params :: params where
  "mrpar_params = map_of [(''mrpar'', ''MRpar_3T'')]"

text \<open>A dictionary that selects slices along x with an output voxel size of
  4.0 on x and an input voxel size of 3.0 on z, the tuple that
  \<^verbatim>\<open>compute_brain_ref\<close> returns for it, and the \<^verbatim>\<open>pulse\<close> command generated
  for it.\<close>

definition xsel_params :: params where
  "xsel_params = map_of [(''slcselect'', ''x''), (''outsize_dx'', ''4.0''), (''vcZ'', ''3.0'')]"

definition xsel_ref :: brain_ref where
  "xsel_ref =
     \<lparr>newdim1 = PyInt 0,
      newdim2 = PyFloat (Finite False 0 0),
      newdim3 = PyFloat (Finite False 0 0),
      inNt = ''1'',
      newpixdim1 = Finite False 4503599627370496 (- 50),
      newpixdim2 = Finite False 4503599627370496 (- 52),
      newpixdim3 = Finite False 6755399441055744 (- 51),
      pixdim4 = ''1''\<rparr>"

definition xsel_pulse :: string where
  "xsel_pulse =
     ''/usr/local/fsl/bin/pulse -i ./simdir/brain -o ./simdir/pulse --seq=epi --te=0.03 --tr=3 ''
     @ ''--trslc=0.12 --nx=64 --ny=64 --numslc=1 --dx=4.0 --dy=4.0 --slcthk=3.0 --numvol=1 ''
     @ ''--zstart=0 --bw=100000 --readdir=x+ --phasedir=y+ --slcdir=x+ --maxG=0.055 ''
     @ ''--riset=0.00022 -v >> ./simdir/possum.log 2>&1''"

text \<open>Dictionaries with the sequence type ge: one with every other parameter
  at its default, and one whose echo time is the text \<^verbatim>\<open>--trslc=1\<close>, with the
  \<^verbatim>\<open>pulse\<close> command generated for it.\<close>

definition ge_params :: params where
  "ge_params = map_of [(''seqtype'', ''GE'')]"

definition ge_te_params :: params where
  "ge_te_params = map_of [(''seqtype'', ''ge''), (''te'', ''--trslc=1'')]"

definition ge_te_pulse :: string where
  "ge_te_pulse =
     ''/usr/local/fsl/bin/pulse -i ./simdir/brain -o ./simdir/pulse --seq=ge --te=--trslc=1 ''
     @ ''--tr=3 --nx=64 --ny=64 --numslc=1 --dx=4.0 --dy=4.0 --slcthk=1.0 --numvol=1 ''
     @ ''--zstart=0 --bw=100000 --readdir=x+ --phasedir=y+ --slcdir=z+ --maxG=0.055 ''
     @ ''--riset=0.00022 -v >> ./simdir/possum.log 2>&1''"

section \<open>Properties\<close>

subsection \<open>The pattern and its matcher\<close>

lemma not_isspace_dquote: "\<not> isspace dquote"
  by (simp add: isspace_def dquote_def)

lemma match_at_occurs:
  assumes "pattern_match_at s = Some (k, v)"
  shows "pattern_occurs [] k v s"
proof -
  from assms have pre: "prefix ''set entries($w,'' s"
    by (auto simp: pattern_match_at_def split: if_splits)
  define r where "r = drop 15 s"
  from pre have s: "s = ''set entries($w,'' @ r"
    unfolding r_def by (auto simp: prefix_def)
  from assms pre obtain x r2 where r1: "dropWhile (\<lambda>c. c \<noteq> CHR '')'') r = x # r2"
    by (auto simp: pattern_match_at_def Let_def r_def split: list.splits)
  have x: "x = CHR '')''"
    using hd_dropWhile[of "\<lambda>c. c \<noteq> CHR '')''" r] r1 by auto
  from assms pre r1 have ws: "takeWhile isspace r2 \<noteq> []"
    by (auto simp: pattern_match_at_def Let_def r_def split: if_splits)
  from assms pre r1 ws obtain q r4 where r3: "dropWhile isspace r2 = q # r4"
    by (auto simp: pattern_match_at_def Let_def r_def split: list.splits)
  from assms pre r1 ws r3 have q: "q = dquote"
    by (auto simp: pattern_match_at_def Let_def r_def split: if_splits)
  from assms pre r1 ws r3 q obtain y r6 where r5: "dropWhile (\<lambda>c. c \<noteq> dquote) r4 = y # r6"
    by (auto simp: pattern_match_at_def Let_def r_def split: list.splits)
  have y: "y = dquote"
    using hd_dropWhile[of "\<lambda>c. c \<noteq> dquote" r4] r5 by auto
  from assms pre r1 ws r3 q r5
  have kv: "k = takeWhile (\<lambda>c. c \<noteq> CHR '')'') r" "v = takeWhile (\<lambda>c. c \<noteq> dquote) r4"
    by (auto simp: pattern_match_at_def Let_def r_def)
  have "r = k @ CHR '')'' # r2"
    using takeWhile_dropWhile_id[of "\<lambda>c. c \<noteq> CHR '')''" r] r1 x kv by simp
  moreover have "r2 = takeWhile isspace r2 @ dquote # r4"
    using takeWhile_dropWhile_id[of isspace r2] r3 q by simp
  moreover have "r4 = v @ dquote # r6"
    using takeWhile_dropWhile_id[of "\<lambda>c. c \<noteq> dquote" r4] r5 y kv by simp
  ultimately have "s = [] @ ''set entries($w,'' @ k @ '')'' @ takeWhile isspace r2 @ [dquote]
       @ v @ [dquote] @ r6"
    using s by simp
  moreover have "CHR '')'' \<notin> set k"
    unfolding kv using set_takeWhileD by fastforce
  moreover have "dquote \<notin> set v"
    unfolding kv using set_takeWhileD by fastforce
  moreover have "\<forall>c \<in> set (takeWhile isspace r2). isspace c"
    using set_takeWhileD by fastforce
  ultimately show ?thesis
    unfolding pattern_occurs_def using ws by blast
qed

lemma occurs_match_at:
  assumes "pattern_occurs [] k v s"
  shows "pattern_match_at s = Some (k, v)"
proof -
  from assms obtain ws post where ws: "ws \<noteq> []" "\<forall>c \<in> set ws. isspace c"
    and k: "CHR '')'' \<notin> set k" and v: "dquote \<notin> set v"
    and s: "s = ''set entries($w,'' @ k @ '')'' @ ws @ [dquote] @ v @ [dquote] @ post"
    unfolding pattern_occurs_def by auto
  have d: "drop 15 s = k @ CHR '')'' # (ws @ dquote # (v @ dquote # post))"
    unfolding s by simp
  have p: "prefix ''set entries($w,'' s"
    unfolding s by simp
  have t1: "takeWhile (\<lambda>c. c \<noteq> CHR '')'') (k @ CHR '')'' # (ws @ dquote # (v @ dquote # post))) = k"
    using k by (auto simp: takeWhile_tail)
  have d1: "dropWhile (\<lambda>c. c \<noteq> CHR '')'') (k @ CHR '')'' # (ws @ dquote # (v @ dquote # post)))
      = CHR '')'' # (ws @ dquote # (v @ dquote # post))"
    using k by (auto simp: dropWhile_append3)
  have t2: "takeWhile isspace (ws @ dquote # (v @ dquote # post)) = ws"
    using ws not_isspace_dquote by (auto simp: takeWhile_tail)
  have d2: "dropWhile isspace (ws @ dquote # (v @ dquote # post)) = dquote # (v @ dquote # post)"
    using ws not_isspace_dquote by (auto simp: dropWhile_append3)
  have t3: "takeWhile (\<lambda>c. c \<noteq> dquote) (v @ dquote # post) = v"
    using v by (auto simp: takeWhile_tail)
  have d3: "dropWhile (\<lambda>c. c \<noteq> dquote) (v @ dquote # post) = dquote # post"
    using v by (auto simp: dropWhile_append3)
  show ?thesis
    unfolding pattern_match_at_def Let_def d using p ws(1) by (simp add: t1 d1 t2 d2 t3 d3)
qed

lemma match_at_iff: "pattern_match_at s = Some (k, v) \<longleftrightarrow> pattern_occurs [] k v s"
  using match_at_occurs occurs_match_at by blast

lemma occurs_shift: "pattern_occurs (pre @ p) k v (pre @ s) \<longleftrightarrow> pattern_occurs p k v s"
  by (simp add: pattern_occurs_def)

lemma occurs_split: "pattern_occurs pre k v s \<longleftrightarrow> (\<exists>t. s = pre @ t \<and> pattern_occurs [] k v t)"
  by (auto simp: pattern_occurs_def)

lemma occurs_Cons_Cons:
  "pattern_occurs (a # p) k v (c # cs) \<longleftrightarrow> a = c \<and> pattern_occurs p k v cs"
  by (auto simp: occurs_split[of "a # p"] occurs_split[of p])

lemma occurs_Cons_cases:
  assumes "pattern_occurs pre k v (c # cs)"
  obtains "pre = []" "pattern_occurs [] k v (c # cs)" | p where "pre = c # p" "pattern_occurs p k v cs"
  using assms by (cases pre) (auto simp: occurs_Cons_Cons)

lemma not_occurs_Nil: "\<not> pattern_occurs pre k v []"
  by (simp add: pattern_occurs_def)

lemma search_Some_iff:
  "pattern_search s = Some (k, v) \<longleftrightarrow>
     (\<exists>pre. pattern_occurs pre k v s
        \<and> (\<forall>pre' k' v'. pattern_occurs pre' k' v' s \<longrightarrow> length pre \<le> length pre'))"
proof (induction s)
  case Nil
  have "pattern_match_at [] = None"
    by (simp add: pattern_match_at_def)
  then show ?case by (simp add: not_occurs_Nil)
next
  case (Cons c cs)
  show ?case
  proof (cases "pattern_match_at (c # cs)")
    case None
    then have no: "\<And>k v. \<not> pattern_occurs [] k v (c # cs)"
      using occurs_match_at by fastforce
    have "pattern_search (c # cs) = pattern_search cs"
      using None by simp
    also have "\<dots> = Some (k, v) \<longleftrightarrow>
       (\<exists>pre. pattern_occurs pre k v cs
          \<and> (\<forall>pre' k' v'. pattern_occurs pre' k' v' cs \<longrightarrow> length pre \<le> length pre'))"
      by (rule Cons.IH)
    also have "\<dots> \<longleftrightarrow>
       (\<exists>pre. pattern_occurs pre k v (c # cs)
          \<and> (\<forall>pre' k' v'. pattern_occurs pre' k' v' (c # cs) \<longrightarrow> length pre \<le> length pre'))"
      (is "?L \<longleftrightarrow> ?R")
    proof
      assume ?L
      then obtain pre where p: "pattern_occurs pre k v cs"
        and m: "\<forall>pre' k' v'. pattern_occurs pre' k' v' cs \<longrightarrow> length pre \<le> length pre'"
        by blast
      have "pattern_occurs (c # pre) k v (c # cs)"
        using p by (simp add: occurs_Cons_Cons)
      moreover have "\<forall>pre' k' v'. pattern_occurs pre' k' v' (c # cs)
          \<longrightarrow> length (c # pre) \<le> length pre'"
      proof (intro allI impI)
        fix pre' k' v'
        assume "pattern_occurs pre' k' v' (c # cs)"
        then show "length (c # pre) \<le> length pre'"
          using m no by (cases rule: occurs_Cons_cases) auto
      qed
      ultimately show ?R by blast
    next
      assume ?R
      then obtain pre where p: "pattern_occurs pre k v (c # cs)"
        and m: "\<forall>pre' k' v'. pattern_occurs pre' k' v' (c # cs) \<longrightarrow> length pre \<le> length pre'"
        by blast
      from p no obtain q where q: "pre = c # q" "pattern_occurs q k v cs"
        by (cases rule: occurs_Cons_cases) auto
      have "\<forall>pre' k' v'. pattern_occurs pre' k' v' cs \<longrightarrow> length q \<le> length pre'"
      proof (intro allI impI)
        fix pre' k' v'
        assume "pattern_occurs pre' k' v' cs"
        then have "pattern_occurs (c # pre') k' v' (c # cs)"
          by (simp add: occurs_Cons_Cons)
        with m have "length pre \<le> length (c # pre')" by blast
        then show "length q \<le> length pre'" using q by simp
      qed
      with q show ?L by blast
    qed
    finally show ?thesis .
  next
    case (Some g)
    obtain k0 v0 where g: "g = (k0, v0)" by (cases g)
    have here: "pattern_occurs [] k0 v0 (c # cs)"
      using Some g match_at_occurs by simp
    have s: "pattern_search (c # cs) = Some (k0, v0)"
      using Some g by simp
    show ?thesis
    proof
      assume "pattern_search (c # cs) = Some (k, v)"
      with s have "k = k0" "v = v0" by simp_all
      with here show "\<exists>pre. pattern_occurs pre k v (c # cs)
         \<and> (\<forall>pre' k' v'. pattern_occurs pre' k' v' (c # cs) \<longrightarrow> length pre \<le> length pre')"
        by (intro exI[of _ "[]"]) simp
    next
      assume "\<exists>pre. pattern_occurs pre k v (c # cs)
         \<and> (\<forall>pre' k' v'. pattern_occurs pre' k' v' (c # cs) \<longrightarrow> length pre \<le> length pre')"
      then obtain pre where p: "pattern_occurs pre k v (c # cs)"
        and m: "\<forall>pre' k' v'. pattern_occurs pre' k' v' (c # cs) \<longrightarrow> length pre \<le> length pre'"
        by blast
      from m here have "pre = []" by fastforce
      with p have "pattern_match_at (c # cs) = Some (k, v)"
        using occurs_match_at by simp
      with Some g s show "pattern_search (c # cs) = Some (k, v)" by simp
    qed
  qed
qed

lemma search_None_iff:
  "pattern_search s = None \<longleftrightarrow> (\<forall>pre k v. \<not> pattern_occurs pre k v s)"
proof (induction s)
  case Nil
  then show ?case by (simp add: not_occurs_Nil pattern_match_at_def)
next
  case (Cons c cs)
  show ?case
  proof (cases "pattern_match_at (c # cs)")
    case None
    then have no: "\<And>k v. \<not> pattern_occurs [] k v (c # cs)"
      using occurs_match_at by fastforce
    have "(\<forall>pre k v. \<not> pattern_occurs pre k v (c # cs)) \<longleftrightarrow> (\<forall>pre k v. \<not> pattern_occurs pre k v cs)"
    proof
      assume a: "\<forall>pre k v. \<not> pattern_occurs pre k v (c # cs)"
      show "\<forall>pre k v. \<not> pattern_occurs pre k v cs"
      proof (intro allI notI)
        fix pre k v
        assume "pattern_occurs pre k v cs"
        then have "pattern_occurs (c # pre) k v (c # cs)"
          by (simp add: occurs_Cons_Cons)
        with a show False by blast
      qed
    next
      assume a: "\<forall>pre k v. \<not> pattern_occurs pre k v cs"
      show "\<forall>pre k v. \<not> pattern_occurs pre k v (c # cs)"
      proof (intro allI notI)
        fix pre k v
        assume "pattern_occurs pre k v (c # cs)"
        then show False
          using a no by (cases rule: occurs_Cons_cases) auto
      qed
    qed
    then show ?thesis using None Cons.IH by simp
  next
    case (Some g)
    obtain k0 v0 where g: "g = (k0, v0)" by (cases g)
    have "pattern_occurs [] k0 v0 (c # cs)"
      using Some g match_at_occurs by simp
    then show ?thesis using Some by auto
  qed
qed

subsection \<open>Parsing\<close>

lemma parse_fsf_snoc: "parse_fsf (ls @ [line]) = parse_line (parse_fsf ls) line"
  by (simp add: parse_fsf_def)

lemma parse_line_entry:
  "parse_line m l = (case line_entry l of None \<Rightarrow> m | Some (k, v) \<Rightarrow> m(k \<mapsto> v))"
  by (simp add: parse_line_def line_entry_def split: option.splits prod.splits)

lemma foldl_parse_agree:
  "(\<forall>x. x \<noteq> k \<longrightarrow> m x = m' x) \<Longrightarrow>
   (\<forall>x. x \<noteq> k \<longrightarrow> foldl parse_line m ls x = foldl parse_line m' ls x)"
proof (induction ls arbitrary: m m')
  case Nil
  then show ?case by simp
next
  case (Cons l ls)
  have "\<forall>x. x \<noteq> k \<longrightarrow> parse_line m l x = parse_line m' l x"
    using Cons.prems by (auto simp: parse_line_entry split: option.splits)
  from Cons.IH[OF this] show ?case by simp
qed

lemma foldl_parse_skip:
  "(\<forall>l \<in> set ls. \<forall>v. line_entry l \<noteq> Some (k, v)) \<Longrightarrow> foldl parse_line m ls k = m k"
proof (induction ls arbitrary: m)
  case Nil
  then show ?case by simp
next
  case (Cons l ls)
  have "parse_line m l k = m k"
    using Cons.prems by (auto simp: parse_line_entry split: option.splits)
  moreover have "foldl parse_line (parse_line m l) ls k = parse_line m l k"
    using Cons.IH Cons.prems by simp
  ultimately show ?case by simp
qed

lemma padded_line_match: "pattern_match_at padded_line = Some (''k'', '' v '')"
  by code_simp

lemma padded_line_parse: "parse_fsf [padded_line] ''k'' = Some ''v''"
  by code_simp

text \<open>
  C9, as stated, at the line \<^verbatim>\<open>set entries($w,k) " v "\<close>: the line matches the
  pattern with the quoted text \<open>'' v ''\<close>, and the value stored for \<open>k\<close> is \<open>''v''\<close>,
  not the quoted text.
\<close>

theorem parse_value_stripped_counterexample:
  "pattern_occurs [] ''k'' '' v '' padded_line
   \<and> parse_fsf [padded_line] ''k'' = Some ''v''
   \<and> parse_fsf [padded_line] ''k'' \<noteq> Some '' v ''"
  using match_at_occurs[OF padded_line_match] padded_line_parse by simp

text \<open>
  C9, amended: a line adds a binding to the dictionary exactly when the pattern
  occurs in it; a line without an occurrence leaves the dictionary as it is, and
  a line with one binds the first group of the leftmost occurrence, stripped of
  leading and trailing whitespace, to the second group, stripped likewise and
  otherwise unchanged.
\<close>

theorem parse_fsf_line_contribution:
  "((\<forall>pre key val. \<not> pattern_occurs pre key val line)
      \<longrightarrow> parse_fsf (ls @ [line]) = parse_fsf ls)
   \<and> (\<forall>pre key val.
        pattern_occurs pre key val line
        \<and> (\<forall>pre' key' val'. pattern_occurs pre' key' val' line \<longrightarrow> length pre \<le> length pre')
        \<longrightarrow> parse_fsf (ls @ [line]) = (parse_fsf ls)(strip key \<mapsto> strip val))"
proof (intro conjI impI allI)
  assume "\<forall>pre key val. \<not> pattern_occurs pre key val line"
  then have "pattern_search line = None"
    by (simp add: search_None_iff)
  then show "parse_fsf (ls @ [line]) = parse_fsf ls"
    by (simp add: parse_fsf_snoc parse_line_def)
next
  fix pre key val
  assume "pattern_occurs pre key val line
     \<and> (\<forall>pre' key' val'. pattern_occurs pre' key' val' line \<longrightarrow> length pre \<le> length pre')"
  then have "pattern_search line = Some (key, val)"
    unfolding search_Some_iff by blast
  then show "parse_fsf (ls @ [line]) = (parse_fsf ls)(strip key \<mapsto> strip val)"
    by (simp add: parse_fsf_snoc parse_line_def)
qed

theorem parse_fsf_line_contribution_witness:
  "parse_fsf ([] @ [comment_line]) = parse_fsf []
   \<and> parse_fsf ([] @ [padded_line]) = (parse_fsf [])(''k'' \<mapsto> ''v'')"
proof -
  have "pattern_search comment_line = None"
    by code_simp
  then have none: "\<forall>pre key val. \<not> pattern_occurs pre key val comment_line"
    by (simp add: search_None_iff)
  have occ: "pattern_occurs [] ''k'' '' v '' padded_line
     \<and> (\<forall>pre' key' val'. pattern_occurs pre' key' val' padded_line \<longrightarrow> length [] \<le> length pre')"
    using match_at_occurs[OF padded_line_match] by simp
  have s: "strip ''k'' = ''k''" "strip '' v '' = ''v''"
    by code_simp+
  from parse_fsf_line_contribution[of comment_line "[]"] none
  have "parse_fsf ([] @ [comment_line]) = parse_fsf []"
    by blast
  moreover from parse_fsf_line_contribution[of padded_line "[]"] occ
  have "parse_fsf ([] @ [padded_line]) = (parse_fsf [])(strip ''k'' \<mapsto> strip '' v '')"
    by blast
  ultimately show ?thesis
    by (simp add: s)
qed

text \<open>
  C10: when two lines set the same key and no line after the second does, the
  dictionary binds the key to the value of the second line; the first line can
  be dropped without changing the dictionary, and so without changing the
  generated commands.
\<close>

theorem parse_fsf_last_wins:
  assumes "line_entry l1 = Some (k, v1)"
    and "line_entry l2 = Some (k, v2)"
    and "\<forall>l \<in> set zs. \<forall>v. line_entry l \<noteq> Some (k, v)"
  shows "parse_fsf (xs @ l1 # ys @ l2 # zs) k = Some v2
    \<and> parse_fsf (xs @ l1 # ys @ l2 # zs) = parse_fsf (xs @ ys @ l2 # zs)
    \<and> generate_shell_commands (parse_fsf (xs @ l1 # ys @ l2 # zs))
      = generate_shell_commands (parse_fsf (xs @ ys @ l2 # zs))"
proof -
  define A where "A = foldl parse_line Map.empty xs"
  define B1 where "B1 = foldl parse_line (parse_line A l1) ys"
  define B2 where "B2 = foldl parse_line A ys"
  have "\<forall>x. x \<noteq> k \<longrightarrow> parse_line A l1 x = A x"
    using assms(1) by (simp add: parse_line_entry)
  then have "\<forall>x. x \<noteq> k \<longrightarrow> B1 x = B2 x"
    unfolding B1_def B2_def by (rule foldl_parse_agree)
  then have eq: "parse_line B1 l2 = parse_line B2 l2"
    using assms(2) by (auto simp: parse_line_entry)
  have l: "parse_fsf (xs @ l1 # ys @ l2 # zs) = foldl parse_line (parse_line B1 l2) zs"
    by (simp add: parse_fsf_def A_def B1_def)
  have r: "parse_fsf (xs @ ys @ l2 # zs) = foldl parse_line (parse_line B2 l2) zs"
    by (simp add: parse_fsf_def A_def B2_def)
  have "foldl parse_line (parse_line B1 l2) zs k = parse_line B1 l2 k"
    using assms(3) by (rule foldl_parse_skip)
  also have "\<dots> = Some v2"
    using assms(2) by (simp add: parse_line_entry)
  finally show ?thesis
    using l r eq by simp
qed

theorem parse_fsf_last_wins_witness:
  "parse_fsf ([] @ tr_line_3 # [] @ tr_line_5 # []) ''tr'' = Some ''5''
   \<and> parse_fsf ([] @ tr_line_3 # [] @ tr_line_5 # []) = parse_fsf ([] @ [] @ tr_line_5 # [])
   \<and> generate_shell_commands (parse_fsf ([] @ tr_line_3 # [] @ tr_line_5 # []))
     = generate_shell_commands (parse_fsf ([] @ [] @ tr_line_5 # []))"
proof -
  have a: "line_entry tr_line_3 = Some (''tr'', ''3'')"
    by code_simp
  have b: "line_entry tr_line_5 = Some (''tr'', ''5'')"
    by code_simp
  have c: "\<forall>l \<in> set ([] :: string list). \<forall>v. line_entry l \<noteq> Some (''tr'', v)"
    by simp
  show ?thesis
    by (rule parse_fsf_last_wins[OF a b c])
qed

subsection \<open>The geometry of the reference image\<close>

lemma bind_err_Inr_iff: "bind_err m f = Inr y \<longleftrightarrow> (\<exists>x. m = Inr x \<and> f x = Inr y)"
  by (cases m) (simp_all add: bind_err_def)

lemma scenario_compute: "compute_brain_ref scenario_params = Inr scenario_ref"
  by code_simp

text \<open>
  C1: when the geometry computation returns, exactly the axis that the
  slice-selection parameter names (x or y after lowering, z for every other
  value) is recomputed: its voxel size is the output voxel size on the axis
  divided by the sampling factor and its dimension is the rounded quotient of
  input dimension times input voxel size by the new voxel size; on the other
  two axes dimension and voxel size are the input values.
\<close>

theorem compute_brain_ref_one_axis:
  assumes "compute_brain_ref params = Inr r"
  shows "\<exists>inNx inNy inNz vcX vcY vcZ outsize_d slcsampfactor new_voxel q new_dim.
     py_float (get params ''inNx'' ''0'') = Inr inNx
     \<and> py_float (get params ''inNy'' ''0'') = Inr inNy
     \<and> py_float (get params ''inNz'' ''0'') = Inr inNz
     \<and> py_float (get params ''vcX'' ''1'') = Inr vcX
     \<and> py_float (get params ''vcY'' ''1'') = Inr vcY
     \<and> py_float (get params ''vcZ'' ''1'') = Inr vcZ
     \<and> py_float (get params ''slcsampfactor'' ''1'') = Inr slcsampfactor
     \<and> float_truediv outsize_d slcsampfactor = Inr new_voxel
     \<and> py_round q = Inr new_dim
     \<and> (if lower (get params ''slcselect'' ''z'') = ''x'' then
           py_float (get params ''outsize_dx'' ''1'') = Inr outsize_d
           \<and> float_truediv (float_mul inNx vcX) new_voxel = Inr q
           \<and> newpixdim1 r = new_voxel \<and> newdim1 r = PyInt new_dim
           \<and> newpixdim2 r = vcY \<and> newdim2 r = PyFloat inNy
           \<and> newpixdim3 r = vcZ \<and> newdim3 r = PyFloat inNz
         else if lower (get params ''slcselect'' ''z'') = ''y'' then
           py_float (get params ''outsize_dy'' ''1'') = Inr outsize_d
           \<and> float_truediv (float_mul inNy vcY) new_voxel = Inr q
           \<and> newpixdim1 r = vcX \<and> newdim1 r = PyFloat inNx
           \<and> newpixdim2 r = new_voxel \<and> newdim2 r = PyInt new_dim
           \<and> newpixdim3 r = vcZ \<and> newdim3 r = PyFloat inNz
         else
           py_float (get params ''outsize_dz'' ''1'') = Inr outsize_d
           \<and> float_truediv (float_mul inNz vcZ) new_voxel = Inr q
           \<and> newpixdim1 r = vcX \<and> newdim1 r = PyFloat inNx
           \<and> newpixdim2 r = vcY \<and> newdim2 r = PyFloat inNy
           \<and> newpixdim3 r = new_voxel \<and> newdim3 r = PyInt new_dim)"
  using assms unfolding compute_brain_ref_def Let_def
  by (auto simp: bind_err_Inr_iff split: if_splits) blast+


theorem compute_brain_ref_one_axis_witness:
  "compute_brain_ref scenario_params = Inr scenario_ref
   \<and> (\<exists>inNz vcZ outsize_d slcsampfactor new_voxel q new_dim.
        py_float ''30'' = Inr inNz \<and> py_float ''3.0'' = Inr vcZ
        \<and> py_float ''4.0'' = Inr outsize_d \<and> py_float ''1'' = Inr slcsampfactor
        \<and> float_truediv outsize_d slcsampfactor = Inr new_voxel
        \<and> float_truediv (float_mul inNz vcZ) new_voxel = Inr q
        \<and> py_round q = Inr new_dim
        \<and> newpixdim3 scenario_ref = new_voxel \<and> newdim3 scenario_ref = PyInt new_dim)"
proof -
  have sel: "lower (get scenario_params ''slcselect'' ''z'') = ''z''"
    by code_simp
  have g: "get scenario_params ''inNz'' ''0'' = ''30''" "get scenario_params ''vcZ'' ''1'' = ''3.0''"
    "get scenario_params ''outsize_dz'' ''1'' = ''4.0''"
    "get scenario_params ''slcsampfactor'' ''1'' = ''1''"
    by code_simp+
  from compute_brain_ref_one_axis[OF scenario_compute]
  show ?thesis
    unfolding sel g using scenario_compute by simp blast
qed

text \<open>
  C2, as stated, at the scenario: the product 30 * 3.0 divided by 4.0 is the
  float 22.5, which \<^verbatim>\<open>round\<close> takes to the even neighbour 22, so the new third
  dimension is 22 and not 23.
\<close>

theorem scenario_newdim3_counterexample:
  "compute_brain_ref scenario_params = Inr scenario_ref
   \<and> newdim3 scenario_ref = PyInt 22
   \<and> newdim3 scenario_ref \<noteq> PyInt 23"
  using scenario_compute by (simp add: scenario_ref_def)

lemma repr_four: "py_repr_float (Finite False 4503599627370496 (- 50)) = ''4.0''"
  by code_simp

lemma repr_twenty_two_half: "py_repr_float (Finite False 6333186975989760 (- 48)) = ''22.5''"
  by code_simp

lemma scenario_quotient:
  "float_truediv (float_mul (Finite False 8444249301319680 (- 48)) (Finite False 6755399441055744 (- 51)))
     (Finite False 4503599627370496 (- 50)) = Inr (Finite False 6333186975989760 (- 48))"
  by code_simp

lemma round_twenty_two_half: "py_round (Finite False 6333186975989760 (- 48)) = Inr 22"
  by code_simp

lemma scenario_inputs:
  "py_float ''30'' = Inr (Finite False 8444249301319680 (- 48))"
  "py_float ''3.0'' = Inr (Finite False 6755399441055744 (- 51))"
  by code_simp+

text \<open>
  C2, amended: for the scenario the geometry computation returns the new third
  voxel size 4.0 and the new third dimension 22, the rounding to even of
  30 * 3.0 / 4.0 = 22.5.
\<close>

theorem scenario_newdim3:
  "compute_brain_ref scenario_params = Inr scenario_ref
   \<and> py_repr_float (newpixdim3 scenario_ref) = ''4.0''
   \<and> newdim3 scenario_ref = PyInt 22
   \<and> py_float ''30'' = Inr (Finite False 8444249301319680 (- 48))
   \<and> py_float ''3.0'' = Inr (Finite False 6755399441055744 (- 51))
   \<and> float_truediv (float_mul (Finite False 8444249301319680 (- 48))
         (Finite False 6755399441055744 (- 51))) (newpixdim3 scenario_ref)
       = Inr (Finite False 6333186975989760 (- 48))
   \<and> py_repr_float (Finite False 6333186975989760 (- 48)) = ''22.5''
   \<and> py_round (Finite False 6333186975989760 (- 48)) = Inr 22"
  using scenario_compute repr_four repr_twenty_two_half scenario_quotient
    round_twenty_two_half scenario_inputs
  by (simp add: scenario_ref_def)

subsection \<open>The generated commands, block by block\<close>

lemma generate_Inr_iff:
  "generate_shell_commands params = Inr cmds \<longleftrightarrow>
     (\<exists>r. compute_brain_ref params = Inr r
        \<and> cmds = object_cmds params r
            @ mrpar_cmds params @ slcprof_cmds params @ mot_cmds params
            @ act1_cmds params @ act2_cmds params
            @ b0f_cmds params
            @ pulse_cmds params r
            @ noise_cmds params
            @ final_cmds params)"
  by (auto simp: generate_shell_commands_def bind_err_Inr_iff)

lemma suffix_same_length: "suffix xs ys \<Longrightarrow> length xs = length ys \<Longrightarrow> xs = ys"
  by (auto simp: suffix_def)

lemma not_noise_mkdir: "\<not> writes_noise params (mkdir_cmd params)"
proof
  assume "writes_noise params (mkdir_cmd params)"
  then have "suffix ('' > '' @ out params @ ''/noise'') (''mkdir -p '' @ out params)"
    by (simp add: writes_noise_def mkdir_cmd_def)
  then have "'' > '' @ out params @ ''/noise'' = ''mkdir -p '' @ out params"
    by (rule suffix_same_length) simp
  then show False by simp
qed

lemma not_noise_fslcreatehd: "\<not> writes_noise params (fslcreatehd_cmd params r)"
  by (simp add: writes_noise_def fslcreatehd_cmd_def suffix_to_prefix)

lemma not_noise_flirt:
  "dst \<in> {''brain'', ''T2'', ''b0newref''} \<Longrightarrow> \<not> writes_noise params (flirt_cmd params src dst)"
  by (auto simp: writes_noise_def flirt_cmd_def suffix_to_prefix)

lemma not_noise_cp:
  "dst \<in> {''MRpar'', ''slcprof'', ''motion'', ''T2timecourse''}
   \<Longrightarrow> \<not> writes_noise params (cp_cmd params src dst)"
  by (auto simp: writes_noise_def cp_cmd_def suffix_to_prefix)

lemma not_noise_fslroi: "\<not> writes_noise params (fslroi_cmd params)"
  by (simp add: writes_noise_def fslroi_cmd_def suffix_to_prefix)

lemma not_noise_fslmaths: "\<not> writes_noise params (fslmaths_cmd params)"
  by (simp add: writes_noise_def fslmaths_cmd_def suffix_to_prefix)

lemma not_noise_pulse: "\<not> writes_noise params (pulse_cmd params r)"
  by (simp add: writes_noise_def pulse_cmd_def suffix_to_prefix)

lemma not_noise_cuspulse:
  "ext \<in> set pulse_exts \<Longrightarrow> \<not> writes_noise params (cuspulse_cmd params ext)"
  by (auto simp: writes_noise_def cuspulse_cmd_def pulse_exts_def suffix_to_prefix)

lemma not_noise_possumX: "\<not> writes_noise params (possumX_cmd params)"
  by (simp add: writes_noise_def possumX_cmd_def suffix_to_prefix)

lemma not_noise_fsf: "\<not> writes_noise params (fsf_cmd params)"
  by (simp add: writes_noise_def fsf_cmd_def suffix_to_prefix)

lemma noise_noise: "writes_noise params (noise_cmd params)"
  by (simp add: writes_noise_def noise_cmd_def suffix_def)


lemma filter_noise_blocks:
  "filter (writes_noise params) (object_cmds params r) = []"
  "filter (writes_noise params) (mrpar_cmds params) = []"
  "filter (writes_noise params) (slcprof_cmds params) = []"
  "filter (writes_noise params) (mot_cmds params) = []"
  "filter (writes_noise params) (act1_cmds params) = []"
  "filter (writes_noise params) (act2_cmds params) = []"
  "filter (writes_noise params) (b0f_cmds params) = []"
  "filter (writes_noise params) (pulse_cmds params r) = []"
  "filter (writes_noise params) (final_cmds params) = []"
  "filter (writes_noise params) (noise_cmds params) = noise_cmds params"
  by (auto simp: object_cmds_def mrpar_cmds_def slcprof_cmds_def mot_cmds_def act1_cmds_def
      act2_cmds_def b0f_cmds_def pulse_cmds_def final_cmds_def noise_cmds_def optional_cp_def
      not_noise_mkdir not_noise_fslcreatehd not_noise_flirt not_noise_cp not_noise_fslroi
      not_noise_fslmaths not_noise_pulse not_noise_cuspulse not_noise_possumX not_noise_fsf
      noise_noise filter_empty_conv)

subsection \<open>Copies into the pulse family\<close>

lemma not_pulse_copy_mkdir: "\<not> is_pulse_copy params (mkdir_cmd params)"
  by (simp add: is_pulse_copy_def mkdir_cmd_def)

lemma not_pulse_copy_noise: "\<not> is_pulse_copy params (noise_cmd params)"
  by (simp add: is_pulse_copy_def noise_cmd_def)

lemma not_pulse_copy_fsf: "\<not> is_pulse_copy params (fsf_cmd params)"
  by (simp add: is_pulse_copy_def fsf_cmd_def)

lemma not_pulse_copy_fslcreatehd: "\<not> is_pulse_copy params (fslcreatehd_cmd params r)"
  by (simp add: is_pulse_copy_def fslcreatehd_cmd_def pulse_exts_def suffix_to_prefix)

lemma not_pulse_copy_flirt:
  "dst \<in> {''brain'', ''T2'', ''b0newref''} \<Longrightarrow> \<not> is_pulse_copy params (flirt_cmd params src dst)"
  by (auto simp: is_pulse_copy_def flirt_cmd_def pulse_exts_def suffix_to_prefix)

lemma not_pulse_copy_cp:
  "dst \<in> {''MRpar'', ''slcprof'', ''motion'', ''T2timecourse''}
   \<Longrightarrow> \<not> is_pulse_copy params (cp_cmd params src dst)"
  by (auto simp: is_pulse_copy_def cp_cmd_def pulse_exts_def suffix_to_prefix)

lemma not_pulse_copy_fslroi: "\<not> is_pulse_copy params (fslroi_cmd params)"
  by (simp add: is_pulse_copy_def fslroi_cmd_def pulse_exts_def suffix_to_prefix)

lemma not_pulse_copy_fslmaths: "\<not> is_pulse_copy params (fslmaths_cmd params)"
  by (simp add: is_pulse_copy_def fslmaths_cmd_def pulse_exts_def suffix_to_prefix)

lemma not_pulse_copy_possumX: "\<not> is_pulse_copy params (possumX_cmd params)"
  by (simp add: is_pulse_copy_def possumX_cmd_def pulse_exts_def suffix_to_prefix)

lemma pulse_copy_cuspulse:
  "ext \<in> set pulse_exts \<Longrightarrow> is_pulse_copy params (cuspulse_cmd params ext)"
  unfolding is_pulse_copy_def cuspulse_cmd_def
  by (intro conjI bexI[of _ ext]) (simp_all add: suffix_def)

lemma filter_pulse_copy_blocks:
  "filter (is_pulse_copy params) (object_cmds params r) = []"
  "filter (is_pulse_copy params) (mrpar_cmds params) = []"
  "filter (is_pulse_copy params) (slcprof_cmds params) = []"
  "filter (is_pulse_copy params) (mot_cmds params) = []"
  "filter (is_pulse_copy params) (act1_cmds params) = []"
  "filter (is_pulse_copy params) (act2_cmds params) = []"
  "filter (is_pulse_copy params) (b0f_cmds params) = []"
  "filter (is_pulse_copy params) (noise_cmds params) = []"
  "filter (is_pulse_copy params) (final_cmds params) = []"
  by (auto simp: object_cmds_def mrpar_cmds_def slcprof_cmds_def mot_cmds_def act1_cmds_def
      act2_cmds_def b0f_cmds_def final_cmds_def noise_cmds_def optional_cp_def
      not_pulse_copy_mkdir not_pulse_copy_fslcreatehd not_pulse_copy_flirt not_pulse_copy_cp
      not_pulse_copy_fslroi not_pulse_copy_fslmaths not_pulse_copy_possumX not_pulse_copy_fsf
      not_pulse_copy_noise)

lemma filter_pulse_copy_family:
  "filter (is_pulse_copy params) (map (cuspulse_cmd params) pulse_exts)
     = map (cuspulse_cmd params) pulse_exts"
  by (simp add: filter_id_conv pulse_copy_cuspulse)

subsection \<open>The scaling of the field slice\<close>

lemma not_scaling_mkdir: "\<not> is_scaling params (mkdir_cmd params)"
proof
  assume "is_scaling params (mkdir_cmd params)"
  then have "suffix ('' -div 1000000 '' @ out params @ ''/b0z_dz.nii.gz'') (''mkdir -p '' @ out params)"
    by (simp add: is_scaling_def mkdir_cmd_def)
  then have "length ('' -div 1000000 '' @ out params @ ''/b0z_dz.nii.gz'')
      \<le> length (''mkdir -p '' @ out params)"
    by (rule suffix_length_le)
  then show False by simp
qed

lemma not_scaling_fslcreatehd: "\<not> is_scaling params (fslcreatehd_cmd params r)"
  by (simp add: is_scaling_def fslcreatehd_cmd_def suffix_to_prefix)

lemma not_scaling_flirt:
  "dst \<in> {''brain'', ''T2'', ''b0newref''} \<Longrightarrow> \<not> is_scaling params (flirt_cmd params src dst)"
  by (auto simp: is_scaling_def flirt_cmd_def suffix_to_prefix)

lemma not_scaling_cp:
  "dst \<in> {''MRpar'', ''slcprof'', ''motion'', ''T2timecourse''}
   \<Longrightarrow> \<not> is_scaling params (cp_cmd params src dst)"
  by (auto simp: is_scaling_def cp_cmd_def suffix_to_prefix)

lemma not_scaling_fslroi: "\<not> is_scaling params (fslroi_cmd params)"
  by (simp add: is_scaling_def fslroi_cmd_def suffix_to_prefix)

lemma not_scaling_pulse: "\<not> is_scaling params (pulse_cmd params r)"
  by (simp add: is_scaling_def pulse_cmd_def suffix_to_prefix)

lemma not_scaling_cuspulse:
  "ext \<in> set pulse_exts \<Longrightarrow> \<not> is_scaling params (cuspulse_cmd params ext)"
  by (auto simp: is_scaling_def cuspulse_cmd_def pulse_exts_def suffix_to_prefix)

lemma not_scaling_noise: "\<not> is_scaling params (noise_cmd params)"
  by (simp add: is_scaling_def noise_cmd_def suffix_to_prefix)

lemma not_scaling_possumX: "\<not> is_scaling params (possumX_cmd params)"
  by (simp add: is_scaling_def possumX_cmd_def suffix_to_prefix)

lemma not_scaling_fsf: "\<not> is_scaling params (fsf_cmd params)"
  by (simp add: is_scaling_def fsf_cmd_def suffix_to_prefix)

lemma scaling_fslmaths: "is_scaling params (fslmaths_cmd params)"
proof -
  have "fslmaths_cmd params =
      (FSLDIR params @ ''/bin/fslmaths '' @ out params @ ''/b0z_dz.nii.gz -mul ''
        @ get params ''b0fieldstrength'' ''1.5'')
      @ ('' -div 1000000 '' @ out params @ ''/b0z_dz.nii.gz'')"
    by (simp add: fslmaths_cmd_def)
  then show ?thesis
    unfolding is_scaling_def suffix_def by blast
qed

lemma filter_scaling_blocks:
  "filter (is_scaling params) (object_cmds params r) = []"
  "filter (is_scaling params) (mrpar_cmds params) = []"
  "filter (is_scaling params) (slcprof_cmds params) = []"
  "filter (is_scaling params) (mot_cmds params) = []"
  "filter (is_scaling params) (act1_cmds params) = []"
  "filter (is_scaling params) (act2_cmds params) = []"
  "filter (is_scaling params) (pulse_cmds params r) = []"
  "filter (is_scaling params) (noise_cmds params) = []"
  "filter (is_scaling params) (final_cmds params) = []"
  by (auto simp: object_cmds_def mrpar_cmds_def slcprof_cmds_def mot_cmds_def act1_cmds_def
      act2_cmds_def pulse_cmds_def final_cmds_def noise_cmds_def optional_cp_def
      not_scaling_mkdir not_scaling_fslcreatehd not_scaling_flirt not_scaling_cp
      not_scaling_pulse not_scaling_cuspulse not_scaling_possumX not_scaling_fsf
      not_scaling_noise filter_empty_conv)

subsection \<open>Noise, custom pulse and field file\<close>

lemma compute_defaults:
  "compute_brain_ref noise_params = Inr default_ref"
  "compute_brain_ref custom_params = Inr default_ref"
  "compute_brain_ref b0_params = Inr default_ref"
  "compute_brain_ref mrpar_params = Inr default_ref"
  by code_simp+

lemma generate_returns:
  "compute_brain_ref params = Inr r \<Longrightarrow> \<exists>cmds. generate_shell_commands params = Inr cmds"
  by (simp add: generate_Inr_iff)

text \<open>
  C4: the generated sequence has exactly one command that writes to the noise
  file when the noise flag is the string \<open>1\<close>, the \<^verbatim>\<open>echo\<close> of an \<^verbatim>\<open>snr\<close> line
  when the lowered units are \<open>snr\<close> and of a \<^verbatim>\<open>sigma\<close> line otherwise, and no
  such command for any other flag.
\<close>

theorem noise_write_iff_flag:
  assumes "generate_shell_commands params = Inr cmds"
  shows "filter (writes_noise params) cmds =
     (if get params ''noise_yn'' ''0'' = ''1'' then
        [''echo '' @ [dquote]
         @ (if lower (get params ''noiseunits'' ''sigma'') = ''snr''
            then ''snr '' @ get params ''noisesnr'' ''10''
            else ''sigma '' @ get params ''noisesigma'' ''0'')
         @ [dquote] @ '' > '' @ out params @ ''/noise'']
      else [])"
proof -
  from assms obtain r where
    "cmds = object_cmds params r
            @ mrpar_cmds params @ slcprof_cmds params @ mot_cmds params
            @ act1_cmds params @ act2_cmds params
            @ b0f_cmds params
            @ pulse_cmds params r
            @ noise_cmds params
            @ final_cmds params"
    by (auto simp: generate_Inr_iff)
  then have "filter (writes_noise params) cmds = noise_cmds params"
    by (simp add: filter_noise_blocks)
  then show ?thesis
    by (simp add: noise_cmds_def noise_cmd_def noise_line_def)
qed

theorem noise_write_iff_flag_witness:
  "\<exists>cmds. generate_shell_commands noise_params = Inr cmds
     \<and> filter (writes_noise noise_params) cmds
       = [''echo '' @ [dquote] @ ''snr 10'' @ [dquote] @ '' > ./simdir/noise'']"
proof -
  obtain cmds where c: "generate_shell_commands noise_params = Inr cmds"
    using generate_returns[OF compute_defaults(1)] by blast
  have e: "get noise_params ''noise_yn'' ''0'' = ''1''"
    "lower (get noise_params ''noiseunits'' ''sigma'') = ''snr''"
    "get noise_params ''noisesnr'' ''10'' = ''10''"
    "out noise_params = ''./simdir''"
    by code_simp+
  from noise_write_iff_flag[OF c] have
    "filter (writes_noise noise_params) cmds
       = [''echo '' @ [dquote] @ ''snr 10'' @ [dquote] @ '' > ./simdir/noise'']"
    unfolding e by simp
  with c show ?thesis by blast
qed

text \<open>
  C6: for a sequence type that is neither \<open>epi\<close> nor \<open>ge\<close> after lowering, the
  copies into the pulse family among the generated commands are, when the
  custom pulse path is not empty, the seven copies of the path with the
  extensions none, \<^verbatim>\<open>.info\<close>, \<^verbatim>\<open>.readme\<close>, \<^verbatim>\<open>.posx\<close>, \<^verbatim>\<open>.posy\<close>, \<^verbatim>\<open>.posz\<close> and \<^verbatim>\<open>.com\<close>,
  next to each other and in this order; when the path is empty there is none.
\<close>

theorem custom_pulse_copies:
  assumes "generate_shell_commands params = Inr cmds"
    and "lower (get params ''seqtype'' ''epi'') \<noteq> ''epi''"
    and "lower (get params ''seqtype'' ''epi'') \<noteq> ''ge''"
  shows "filter (is_pulse_copy params) cmds =
     (if get params ''cuspulse'' [] \<noteq> [] then
        map (\<lambda>ext. ''cp '' @ get params ''cuspulse'' [] @ ext @ '' '' @ out params @ ''/pulse'' @ ext)
          [[], ''.info'', ''.readme'', ''.posx'', ''.posy'', ''.posz'', ''.com'']
      else [])
   \<and> (\<exists>pre post. cmds = pre @ filter (is_pulse_copy params) cmds @ post)"
proof -
  from assms(1) obtain r where c:
    "cmds = (object_cmds params r
            @ mrpar_cmds params @ slcprof_cmds params @ mot_cmds params
            @ act1_cmds params @ act2_cmds params
            @ b0f_cmds params)
            @ pulse_cmds params r
            @ (noise_cmds params
            @ final_cmds params)"
    by (auto simp: generate_Inr_iff)
  have p: "pulse_cmds params r =
      (if get params ''cuspulse'' [] \<noteq> [] then map (cuspulse_cmd params) pulse_exts else [])"
    using assms(2,3) by (simp add: pulse_cmds_def)
  have f: "filter (is_pulse_copy params) cmds = pulse_cmds params r"
    unfolding c by (simp add: filter_pulse_copy_blocks p filter_pulse_copy_family)
  have "\<exists>pre post. cmds = pre @ pulse_cmds params r @ post"
    using c by blast
  with f p show ?thesis
    by (simp add: cuspulse_cmd_def pulse_exts_def)
qed

theorem custom_pulse_copies_witness:
  "\<exists>cmds. generate_shell_commands custom_params = Inr cmds
     \<and> filter (is_pulse_copy custom_params) cmds
       = [''cp /p/pulse ./simdir/pulse'', ''cp /p/pulse.info ./simdir/pulse.info'',
          ''cp /p/pulse.readme ./simdir/pulse.readme'', ''cp /p/pulse.posx ./simdir/pulse.posx'',
          ''cp /p/pulse.posy ./simdir/pulse.posy'', ''cp /p/pulse.posz ./simdir/pulse.posz'',
          ''cp /p/pulse.com ./simdir/pulse.com'']"
proof -
  obtain cmds where c: "generate_shell_commands custom_params = Inr cmds"
    using generate_returns[OF compute_defaults(2)] by blast
  have s: "lower (get custom_params ''seqtype'' ''epi'') = ''custom''"
    by code_simp
  have e: "get custom_params ''cuspulse'' [] = ''/p/pulse''" "out custom_params = ''./simdir''"
    by code_simp+
  have "filter (is_pulse_copy custom_params) cmds
       = [''cp /p/pulse ./simdir/pulse'', ''cp /p/pulse.info ./simdir/pulse.info'',
          ''cp /p/pulse.readme ./simdir/pulse.readme'', ''cp /p/pulse.posx ./simdir/pulse.posx'',
          ''cp /p/pulse.posy ./simdir/pulse.posy'', ''cp /p/pulse.posz ./simdir/pulse.posz'',
          ''cp /p/pulse.com ./simdir/pulse.com'']"
    using custom_pulse_copies[OF c] unfolding s e by simp
  with c show ?thesis by blast
qed

text \<open>
  C8: when the field file path is not empty the generated commands contain,
  next to each other and in this order, the registration of the field file
  against the reference volume, the extraction of one slice (start 0, count 1)
  from the registered result and, exactly when the lowered units (default
  \<open>ppm\<close>) are \<open>ppm\<close>, the scaling of the extracted slice in place by the field
  strength divided by 1000000; for other units no command is a scaling.
\<close>

theorem b0_field_commands:
  assumes "generate_shell_commands params = Inr cmds"
    and "get params ''b0f'' [] \<noteq> []"
  shows "(\<exists>pre post. cmds = pre
       @ [FSLDIR params @ ''/bin/flirt -in '' @ get params ''b0f'' [] @ '' -ref '' @ out params
            @ ''/brainref -applyxfm -out '' @ out params @ ''/b0newref'',
          FSLDIR params @ ''/bin/fslroi '' @ out params @ ''/b0newref '' @ out params
            @ ''/b0z_dz.nii.gz 0 1'']
       @ filter (is_scaling params) cmds @ post)
   \<and> filter (is_scaling params) cmds =
       (if lower (get params ''b0units'' ''ppm'') = ''ppm'' then
          [FSLDIR params @ ''/bin/fslmaths '' @ out params @ ''/b0z_dz.nii.gz -mul ''
           @ get params ''b0fieldstrength'' ''1.5'' @ '' -div 1000000 '' @ out params
           @ ''/b0z_dz.nii.gz'']
        else [])"
proof -
  define scale where "scale =
     (if lower (get params ''b0units'' ''ppm'') = ''ppm'' then [fslmaths_cmd params] else [])"
  from assms(1) obtain r where c:
    "cmds = (object_cmds params r
            @ mrpar_cmds params @ slcprof_cmds params @ mot_cmds params
            @ act1_cmds params @ act2_cmds params)
            @ b0f_cmds params
            @ (pulse_cmds params r
            @ noise_cmds params
            @ final_cmds params)"
    by (auto simp: generate_Inr_iff)
  have b: "b0f_cmds params =
      [flirt_cmd params (get params ''b0f'' []) ''b0newref'', fslroi_cmd params] @ scale"
    using assms(2) by (simp add: b0f_cmds_def scale_def)
  have "filter (is_scaling params) (b0f_cmds params) = scale"
    unfolding b scale_def
    by (simp add: not_scaling_flirt not_scaling_fslroi scaling_fslmaths)
  then have f: "filter (is_scaling params) cmds = scale"
    unfolding c by (simp add: filter_scaling_blocks)
  have "\<exists>pre post. cmds = pre
       @ [flirt_cmd params (get params ''b0f'' []) ''b0newref'', fslroi_cmd params]
       @ scale @ post"
    using c b by (metis append.assoc)
  with f show ?thesis
    by (simp add: scale_def flirt_cmd_def fslroi_cmd_def fslmaths_cmd_def)
qed

theorem b0_field_commands_witness:
  "\<exists>cmds. generate_shell_commands b0_params = Inr cmds
     \<and> filter (is_scaling b0_params) cmds
       = [''/usr/local/fsl/bin/fslmaths ./simdir/b0z_dz.nii.gz -mul 1.5 -div 1000000 ./simdir/b0z_dz.nii.gz'']"
proof -
  obtain cmds where c: "generate_shell_commands b0_params = Inr cmds"
    using generate_returns[OF compute_defaults(3)] by blast
  have n: "get b0_params ''b0f'' [] \<noteq> []"
    by code_simp
  have e: "lower (get b0_params ''b0units'' ''ppm'') = ''ppm''"
    "get b0_params ''b0fieldstrength'' ''1.5'' = ''1.5''"
    "out b0_params = ''./simdir''" "FSLDIR b0_params = ''/usr/local/fsl''"
    by code_simp+
  have "filter (is_scaling b0_params) cmds
       = [''/usr/local/fsl/bin/fslmaths ./simdir/b0z_dz.nii.gz -mul 1.5 -div 1000000 ./simdir/b0z_dz.nii.gz'']"
    using b0_field_commands[OF c n] unfolding e by simp
  with c show ?thesis by blast
qed

subsection \<open>Optional file parameters\<close>

lemma get_frame: "key \<noteq> k \<Longrightarrow> get (params(key := x)) k d = get params k d"
  by (simp add: get_def)

lemma get_emptied:
  "get (params(key \<mapsto> [])) key [] = []" "get (params(key := None)) key [] = []"
  by (simp_all add: get_def)

lemma compute_brain_ref_frame:
  assumes "key \<notin> {''inNx'', ''inNy'', ''inNz'', ''inNt'', ''vcX'', ''vcY'', ''vcZ'',
      ''outsize_nx'', ''outsize_ny'', ''outsize_nz'', ''outsize_dx'', ''outsize_dy'',
      ''outsize_dz'', ''slcsampfactor'', ''slcselect''}"
  shows "compute_brain_ref (params(key := x)) = compute_brain_ref params"
  using assms by (simp add: compute_brain_ref_def outsize_n_def get_frame)

lemma dirs_frame:
  assumes "key \<notin> {''FSLDIR'', ''POSSUMDIR'', ''out''}"
  shows "FSLDIR (params(key := x)) = FSLDIR params"
    and "POSSUMDIR (params(key := x)) = POSSUMDIR params"
    and "out (params(key := x)) = out params"
  using assms by (simp_all add: FSLDIR_def POSSUMDIR_def out_def get_frame)

lemma object_cmds_frame:
  assumes "key \<notin> {''FSLDIR'', ''POSSUMDIR'', ''out'', ''obvol''}"
  shows "object_cmds (params(key := x)) r = object_cmds params r"
  using assms
  by (simp add: object_cmds_def mkdir_cmd_def fslcreatehd_cmd_def flirt_cmd_def dirs_frame get_frame)

lemma optional_cp_frame:
  assumes "key \<notin> {''FSLDIR'', ''POSSUMDIR'', ''out'', k}"
  shows "optional_cp (params(key := x)) k dst = optional_cp params k dst"
  using assms by (simp add: optional_cp_def cp_cmd_def dirs_frame get_frame)

lemma act1_cmds_frame:
  assumes "key \<notin> {''FSLDIR'', ''POSSUMDIR'', ''out'', ''act1''}"
  shows "act1_cmds (params(key := x)) = act1_cmds params"
  using assms by (simp add: act1_cmds_def flirt_cmd_def dirs_frame get_frame)

lemma b0f_cmds_frame:
  assumes "key \<notin> {''FSLDIR'', ''POSSUMDIR'', ''out'', ''b0f'', ''b0units'', ''b0fieldstrength''}"
  shows "b0f_cmds (params(key := x)) = b0f_cmds params"
  using assms
  by (simp add: b0f_cmds_def flirt_cmd_def fslroi_cmd_def fslmaths_cmd_def dirs_frame get_frame)

lemma pulse_cmds_frame:
  assumes "key \<notin> {''FSLDIR'', ''POSSUMDIR'', ''out'', ''seqtype'', ''te'', ''tr'', ''trslc'',
      ''outsize_nx'', ''outsize_ny'', ''outsize_nz'', ''outsize_dx'', ''outsize_dy'', ''numvol'',
      ''bw'', ''readgrad'', ''phencode'', ''slcselect'', ''plus'', ''maxG'', ''riseT'', ''cuspulse''}"
  shows "pulse_cmds (params(key := x)) r = pulse_cmds params r"
  using assms
  by (simp add: pulse_cmds_def pulse_cmd_def pulse_head_def pulse_trslc_def pulse_tail_def
      pulse_plane_def pulse_rest_def cuspulse_cmd_def dirs_frame get_frame)

lemma noise_cmds_frame:
  assumes "key \<notin> {''FSLDIR'', ''POSSUMDIR'', ''out'', ''noise_yn'', ''noiseunits'', ''noisesnr'',
      ''noisesigma''}"
  shows "noise_cmds (params(key := x)) = noise_cmds params"
  using assms
  by (simp add: noise_cmds_def noise_cmd_def noise_line_def dirs_frame get_frame)

lemma final_cmds_frame:
  assumes "key \<notin> {''FSLDIR'', ''POSSUMDIR'', ''out'', ''numproc'', ''proctime'', ''segs''}"
  shows "final_cmds (params(key := x)) = final_cmds params"
  using assms
  by (simp add: final_cmds_def possumX_cmd_def fsf_cmd_def dirs_frame get_frame)

lemmas blocks_frame = compute_brain_ref_frame object_cmds_frame optional_cp_frame act1_cmds_frame
  b0f_cmds_frame pulse_cmds_frame noise_cmds_frame final_cmds_frame

lemma emptied_blocks:
  "optional_cp (params(key := x)) key dst = []" if "x = Some [] \<or> x = None"
  using that by (auto simp: optional_cp_def get_def)

lemma emptied_act1: "act1_cmds (params(''act1'' := x)) = []" if "x = Some [] \<or> x = None"
  using that by (auto simp: act1_cmds_def get_def)

lemma emptied_b0f: "b0f_cmds (params(''b0f'' := x)) = []" if "x = Some [] \<or> x = None"
  using that by (auto simp: b0f_cmds_def get_def)


text \<open>
  C7: for each of the six optional file parameters, setting it to the empty
  string or leaving it out, with every other parameter as it is, removes the
  block of commands that the parameter guards and nothing else: the commands
  before and after the block stay, in their order.
\<close>

theorem optional_file_removal:
  assumes "(key, block) \<in> set optional_blocks"
    and "generate_shell_commands params = Inr cmds"
  shows "\<exists>pre post. cmds = pre @ block params @ post
     \<and> generate_shell_commands (params(key \<mapsto> [])) = Inr (pre @ post)
     \<and> generate_shell_commands (params(key := None)) = Inr (pre @ post)"
proof -
  from assms(2) obtain r where r: "compute_brain_ref params = Inr r"
    and c: "cmds = object_cmds params r @ mrpar_cmds params @ slcprof_cmds params @ mot_cmds params @ act1_cmds params @ act2_cmds params @ b0f_cmds params @ pulse_cmds params r @ noise_cmds params @ final_cmds params"
    unfolding generate_Inr_iff by (elim exE conjE)
  have "(key = ''mrpar'' \<and> block = mrpar_cmds) \<or> (key = ''slcprof'' \<and> block = slcprof_cmds) \<or> (key = ''mot'' \<and> block = mot_cmds) \<or> (key = ''act1'' \<and> block = act1_cmds) \<or> (key = ''act2'' \<and> block = act2_cmds) \<or> (key = ''b0f'' \<and> block = b0f_cmds)"
    using assms(1) unfolding optional_blocks_def by simp
  then show ?thesis
  proof (elim disjE conjE)
    assume k: "key = ''mrpar''" and b: "block = mrpar_cmds"
    let ?pre = "object_cmds params r"
    let ?post = "slcprof_cmds params @ mot_cmds params @ act1_cmds params @ act2_cmds params @ b0f_cmds params @ pulse_cmds params r @ noise_cmds params @ final_cmds params"
    have A: "cmds = ?pre @ block params @ ?post"
      unfolding c b by simp
    have B: "generate_shell_commands (params(key := x)) = Inr (?pre @ ?post)"
      if "x = Some [] \<or> x = None" for x
      unfolding k generate_Inr_iff using r that
      by (simp add: blocks_frame mrpar_cmds_def slcprof_cmds_def mot_cmds_def
          act2_cmds_def emptied_blocks emptied_act1 emptied_b0f)
    have B1: "generate_shell_commands (params(key \<mapsto> [])) = Inr (?pre @ ?post)"
      by (rule B) simp
    have B2: "generate_shell_commands (params(key := None)) = Inr (?pre @ ?post)"
      by (rule B) simp
    show ?thesis
      by (rule exI[of _ "?pre"], rule exI[of _ "?post"], intro conjI A B1 B2)
  next
    assume k: "key = ''slcprof''" and b: "block = slcprof_cmds"
    let ?pre = "object_cmds params r @ mrpar_cmds params"
    let ?post = "mot_cmds params @ act1_cmds params @ act2_cmds params @ b0f_cmds params @ pulse_cmds params r @ noise_cmds params @ final_cmds params"
    have A: "cmds = ?pre @ block params @ ?post"
      unfolding c b by simp
    have B: "generate_shell_commands (params(key := x)) = Inr (?pre @ ?post)"
      if "x = Some [] \<or> x = None" for x
      unfolding k generate_Inr_iff using r that
      by (simp add: blocks_frame mrpar_cmds_def slcprof_cmds_def mot_cmds_def
          act2_cmds_def emptied_blocks emptied_act1 emptied_b0f)
    have B1: "generate_shell_commands (params(key \<mapsto> [])) = Inr (?pre @ ?post)"
      by (rule B) simp
    have B2: "generate_shell_commands (params(key := None)) = Inr (?pre @ ?post)"
      by (rule B) simp
    show ?thesis
      by (rule exI[of _ "?pre"], rule exI[of _ "?post"], intro conjI A B1 B2)
  next
    assume k: "key = ''mot''" and b: "block = mot_cmds"
    let ?pre = "object_cmds params r @ mrpar_cmds params @ slcprof_cmds params"
    let ?post = "act1_cmds params @ act2_cmds params @ b0f_cmds params @ pulse_cmds params r @ noise_cmds params @ final_cmds params"
    have A: "cmds = ?pre @ block params @ ?post"
      unfolding c b by simp
    have B: "generate_shell_commands (params(key := x)) = Inr (?pre @ ?post)"
      if "x = Some [] \<or> x = None" for x
      unfolding k generate_Inr_iff using r that
      by (simp add: blocks_frame mrpar_cmds_def slcprof_cmds_def mot_cmds_def
          act2_cmds_def emptied_blocks emptied_act1 emptied_b0f)
    have B1: "generate_shell_commands (params(key \<mapsto> [])) = Inr (?pre @ ?post)"
      by (rule B) simp
    have B2: "generate_shell_commands (params(key := None)) = Inr (?pre @ ?post)"
      by (rule B) simp
    show ?thesis
      by (rule exI[of _ "?pre"], rule exI[of _ "?post"], intro conjI A B1 B2)
  next
    assume k: "key = ''act1''" and b: "block = act1_cmds"
    let ?pre = "object_cmds params r @ mrpar_cmds params @ slcprof_cmds params @ mot_cmds params"
    let ?post = "act2_cmds params @ b0f_cmds params @ pulse_cmds params r @ noise_cmds params @ final_cmds params"
    have A: "cmds = ?pre @ block params @ ?post"
      unfolding c b by simp
    have B: "generate_shell_commands (params(key := x)) = Inr (?pre @ ?post)"
      if "x = Some [] \<or> x = None" for x
      unfolding k generate_Inr_iff using r that
      by (simp add: blocks_frame mrpar_cmds_def slcprof_cmds_def mot_cmds_def
          act2_cmds_def emptied_blocks emptied_act1 emptied_b0f)
    have B1: "generate_shell_commands (params(key \<mapsto> [])) = Inr (?pre @ ?post)"
      by (rule B) simp
    have B2: "generate_shell_commands (params(key := None)) = Inr (?pre @ ?post)"
      by (rule B) simp
    show ?thesis
      by (rule exI[of _ "?pre"], rule exI[of _ "?post"], intro conjI A B1 B2)
  next
    assume k: "key = ''act2''" and b: "block = act2_cmds"
    let ?pre = "object_cmds params r @ mrpar_cmds params @ slcprof_cmds params @ mot_cmds params @ act1_cmds params"
    let ?post = "b0f_cmds params @ pulse_cmds params r @ noise_cmds params @ final_cmds params"
    have A: "cmds = ?pre @ block params @ ?post"
      unfolding c b by simp
    have B: "generate_shell_commands (params(key := x)) = Inr (?pre @ ?post)"
      if "x = Some [] \<or> x = None" for x
      unfolding k generate_Inr_iff using r that
      by (simp add: blocks_frame mrpar_cmds_def slcprof_cmds_def mot_cmds_def
          act2_cmds_def emptied_blocks emptied_act1 emptied_b0f)
    have B1: "generate_shell_commands (params(key \<mapsto> [])) = Inr (?pre @ ?post)"
      by (rule B) simp
    have B2: "generate_shell_commands (params(key := None)) = Inr (?pre @ ?post)"
      by (rule B) simp
    show ?thesis
      by (rule exI[of _ "?pre"], rule exI[of _ "?post"], intro conjI A B1 B2)
  next
    assume k: "key = ''b0f''" and b: "block = b0f_cmds"
    let ?pre = "object_cmds params r @ mrpar_cmds params @ slcprof_cmds params @ mot_cmds params @ act1_cmds params @ act2_cmds params"
    let ?post = "pulse_cmds params r @ noise_cmds params @ final_cmds params"
    have A: "cmds = ?pre @ block params @ ?post"
      unfolding c b by simp
    have B: "generate_shell_commands (params(key := x)) = Inr (?pre @ ?post)"
      if "x = Some [] \<or> x = None" for x
      unfolding k generate_Inr_iff using r that
      by (simp add: blocks_frame mrpar_cmds_def slcprof_cmds_def mot_cmds_def
          act2_cmds_def emptied_blocks emptied_act1 emptied_b0f)
    have B1: "generate_shell_commands (params(key \<mapsto> [])) = Inr (?pre @ ?post)"
      by (rule B) simp
    have B2: "generate_shell_commands (params(key := None)) = Inr (?pre @ ?post)"
      by (rule B) simp
    show ?thesis
      by (rule exI[of _ "?pre"], rule exI[of _ "?post"], intro conjI A B1 B2)
  qed
qed

theorem optional_file_removal_witness:
  "\<exists>cmds pre post. generate_shell_commands mrpar_params = Inr cmds
     \<and> cmds = pre @ [''cp MRpar_3T ./simdir/MRpar''] @ post
     \<and> generate_shell_commands (mrpar_params(''mrpar'' \<mapsto> [])) = Inr (pre @ post)
     \<and> generate_shell_commands (mrpar_params(''mrpar'' := None)) = Inr (pre @ post)"
proof -
  obtain cmds where c: "generate_shell_commands mrpar_params = Inr cmds"
    using generate_returns[OF compute_defaults(4)] by (elim exE)
  have m: "(''mrpar'', mrpar_cmds) \<in> set optional_blocks"
    by (simp add: optional_blocks_def)
  have e: "mrpar_cmds mrpar_params = [''cp MRpar_3T ./simdir/MRpar'']"
    by code_simp
  from optional_file_removal[OF m c] obtain pre post where
    "cmds = pre @ [''cp MRpar_3T ./simdir/MRpar''] @ post
     \<and> generate_shell_commands (mrpar_params(''mrpar'' \<mapsto> [])) = Inr (pre @ post)
     \<and> generate_shell_commands (mrpar_params(''mrpar'' := None)) = Inr (pre @ post)"
    unfolding e by (elim exE)
  with c show ?thesis
    by (intro exI[of _ cmds] exI[of _ pre] exI[of _ post] conjI) simp_all
qed

subsection \<open>The slice thickness of the pulse command\<close>

lemma xsel_compute: "compute_brain_ref xsel_params = Inr xsel_ref"
  by code_simp

lemma xsel_pulse_cmd: "pulse_cmd xsel_params xsel_ref = xsel_pulse"
  by code_simp

lemma xsel_selects:
  "lower (get xsel_params ''seqtype'' ''epi'') = ''epi''"
  "lower (get xsel_params ''slcselect'' ''z'') = ''x''"
  by code_simp+

lemma xsel_reprs:
  "py_repr_float (newpixdim1 xsel_ref) = ''4.0''"
  "py_repr_float (newpixdim3 xsel_ref) = ''3.0''"
  by code_simp+

lemma xsel_generate:
  "generate_shell_commands xsel_params
     = Inr (object_cmds xsel_params xsel_ref @ [xsel_pulse] @ final_cmds xsel_params)"
proof -
  have "mrpar_cmds xsel_params = []" "slcprof_cmds xsel_params = []" "mot_cmds xsel_params = []"
    "act1_cmds xsel_params = []" "act2_cmds xsel_params = []" "b0f_cmds xsel_params = []"
    "noise_cmds xsel_params = []"
    by code_simp+
  moreover have "pulse_cmds xsel_params xsel_ref = [pulse_cmd xsel_params xsel_ref]"
    using xsel_selects(1) by (simp add: pulse_cmds_def)
  ultimately show ?thesis
    unfolding generate_Inr_iff using xsel_compute xsel_pulse_cmd by simp
qed

text \<open>
  C3, as stated, with slice selection x: the voxel size recomputed on the
  selected axis is \<open>newpixdim1 = 4.0\<close>, and the generated \<^verbatim>\<open>pulse\<close> command
  has \<^verbatim>\<open>--slcthk=3.0\<close>, the input voxel size on z.
\<close>

theorem slcthk_selected_axis_counterexample:
  "compute_brain_ref xsel_params = Inr xsel_ref
   \<and> lower (get xsel_params ''seqtype'' ''epi'') = ''epi''
   \<and> lower (get xsel_params ''slcselect'' ''z'') = ''x''
   \<and> py_repr_float (newpixdim1 xsel_ref) = ''4.0''
   \<and> generate_shell_commands xsel_params
       = Inr (object_cmds xsel_params xsel_ref @ [xsel_pulse] @ final_cmds xsel_params)
   \<and> xsel_pulse =
       ''/usr/local/fsl/bin/pulse -i ./simdir/brain -o ./simdir/pulse --seq=epi --te=0.03 --tr=3 ''
       @ ''--trslc=0.12 --nx=64 --ny=64 --numslc=1 --dx=4.0 --dy=4.0 --slcthk=3.0 --numvol=1 ''
       @ ''--zstart=0 --bw=100000 --readdir=x+ --phasedir=y+ --slcdir=x+ --maxG=0.055 ''
       @ ''--riset=0.00022 -v >> ./simdir/possum.log 2>&1''"
  using xsel_compute xsel_selects xsel_reprs(1) xsel_generate
  by (simp add: xsel_pulse_def)

lemma compute_brain_ref_newpixdim3:
  assumes "compute_brain_ref params = Inr r"
  shows "if lower (get params ''slcselect'' ''z'') = ''x''
            \<or> lower (get params ''slcselect'' ''z'') = ''y''
         then py_float (get params ''vcZ'' ''1'') = Inr (newpixdim3 r)
         else (\<exists>outsize_dz slcsampfactor.
                 py_float (get params ''outsize_dz'' ''1'') = Inr outsize_dz
                 \<and> py_float (get params ''slcsampfactor'' ''1'') = Inr slcsampfactor
                 \<and> float_truediv outsize_dz slcsampfactor = Inr (newpixdim3 r))"
  using assms unfolding compute_brain_ref_def Let_def
  by (auto simp: bind_err_Inr_iff split: if_splits)

text \<open>
  C3, amended: for a sequence type that lowers to \<open>epi\<close> or \<open>ge\<close> the slice
  thickness argument of the generated \<^verbatim>\<open>pulse\<close> command is \<open>newpixdim3\<close> of the
  geometry computation, whatever the slice selection: the voxel size recomputed
  on z when the selection is neither x nor y, and the input voxel size on z
  when it is x or y.
\<close>

theorem slcthk_is_newpixdim3:
  assumes "generate_shell_commands params = Inr cmds"
    and "lower (get params ''seqtype'' ''epi'') = ''epi''
         \<or> lower (get params ''seqtype'' ''epi'') = ''ge''"
  shows "\<exists>r pre post.
     compute_brain_ref params = Inr r
     \<and> cmds = pre
         @ [pulse_head params @ pulse_trslc params @ pulse_plane params
            @ '' --slcthk='' @ py_repr_float (newpixdim3 r) @ pulse_rest params
            @ '' >> '' @ out params @ ''/possum.log 2>&1'']
         @ post
     \<and> (if lower (get params ''slcselect'' ''z'') = ''x''
            \<or> lower (get params ''slcselect'' ''z'') = ''y''
         then py_float (get params ''vcZ'' ''1'') = Inr (newpixdim3 r)
         else (\<exists>outsize_dz slcsampfactor.
                 py_float (get params ''outsize_dz'' ''1'') = Inr outsize_dz
                 \<and> py_float (get params ''slcsampfactor'' ''1'') = Inr slcsampfactor
                 \<and> float_truediv outsize_dz slcsampfactor = Inr (newpixdim3 r)))"
proof -
  from assms(1) obtain r where r: "compute_brain_ref params = Inr r"
    and c: "cmds = object_cmds params r
            @ mrpar_cmds params @ slcprof_cmds params @ mot_cmds params
            @ act1_cmds params @ act2_cmds params
            @ b0f_cmds params
            @ pulse_cmds params r
            @ noise_cmds params
            @ final_cmds params"
    unfolding generate_Inr_iff by (elim exE conjE)
  let ?pre = "object_cmds params r
            @ mrpar_cmds params @ slcprof_cmds params @ mot_cmds params
            @ act1_cmds params @ act2_cmds params
            @ b0f_cmds params"
  let ?post = "noise_cmds params @ final_cmds params"
  have p: "pulse_cmds params r = [pulse_cmd params r]"
    using assms(2) by (auto simp: pulse_cmds_def)
  have A: "cmds = ?pre
         @ [pulse_head params @ pulse_trslc params @ pulse_plane params
            @ '' --slcthk='' @ py_repr_float (newpixdim3 r) @ pulse_rest params
            @ '' >> '' @ out params @ ''/possum.log 2>&1'']
         @ ?post"
    unfolding c p by (simp add: pulse_cmd_def pulse_tail_def)
  show ?thesis
    by (rule exI[of _ r], rule exI[of _ "?pre"], rule exI[of _ "?post"],
        intro conjI r A compute_brain_ref_newpixdim3[OF r])
qed

theorem slcthk_is_newpixdim3_witness:
  "\<exists>cmds pre post. generate_shell_commands xsel_params = Inr cmds
     \<and> cmds = pre @ [xsel_pulse] @ post
     \<and> py_float (get xsel_params ''vcZ'' ''1'') = Inr (newpixdim3 xsel_ref)"
proof -
  have s: "lower (get xsel_params ''seqtype'' ''epi'') = ''epi''
         \<or> lower (get xsel_params ''seqtype'' ''epi'') = ''ge''"
    using xsel_selects(1) by simp
  from slcthk_is_newpixdim3[OF xsel_generate s] obtain r pre post where
    r: "compute_brain_ref xsel_params = Inr r"
    and c: "object_cmds xsel_params xsel_ref @ [xsel_pulse] @ final_cmds xsel_params = pre
         @ [pulse_head xsel_params @ pulse_trslc xsel_params @ pulse_plane xsel_params
            @ '' --slcthk='' @ py_repr_float (newpixdim3 r) @ pulse_rest xsel_params
            @ '' >> '' @ out xsel_params @ ''/possum.log 2>&1'']
         @ post"
    and v: "py_float (get xsel_params ''vcZ'' ''1'') = Inr (newpixdim3 r)"
    unfolding xsel_selects by (elim exE conjE) simp
  have "r = xsel_ref"
    using r xsel_compute by simp
  then have "pulse_head xsel_params @ pulse_trslc xsel_params @ pulse_plane xsel_params
            @ '' --slcthk='' @ py_repr_float (newpixdim3 r) @ pulse_rest xsel_params
            @ '' >> '' @ out xsel_params @ ''/possum.log 2>&1'' = xsel_pulse"
    using xsel_pulse_cmd by (simp add: pulse_cmd_def pulse_tail_def)
  with c have "object_cmds xsel_params xsel_ref @ [xsel_pulse] @ final_cmds xsel_params
      = pre @ [xsel_pulse] @ post"
    by simp
  with xsel_generate v \<open>r = xsel_ref\<close> show ?thesis
    by (intro exI[of _ "object_cmds xsel_params xsel_ref @ [xsel_pulse] @ final_cmds xsel_params"]
        exI[of _ pre] exI[of _ post] conjI) simp_all
qed

subsection \<open>The per-slice repetition time of the pulse command\<close>

lemma sublist_separator:
  assumes "c \<notin> set p"
  shows "sublist p (a @ c # b) \<longleftrightarrow> sublist p a \<or> sublist p b"
proof
  assume "sublist p (a @ c # b)"
  then consider "sublist p a" | "sublist p (c # b)"
    | xs1 xs2 where "p = xs1 @ xs2" "suffix xs1 a" "prefix xs2 (c # b)"
    unfolding sublist_append by blast
  then show "sublist p a \<or> sublist p b"
  proof cases
    case 1
    then show ?thesis by simp
  next
    case 2
    then have "prefix p (c # b) \<or> sublist p b"
      by (simp add: sublist_Cons_right)
    then show ?thesis
    proof
      assume "prefix p (c # b)"
      with assms have "p = []"
        by (cases p) auto
      then show ?thesis by simp
    qed simp
  next
    case 3
    from 3(1,3) assms have "xs2 = []"
      by (cases xs2) auto
    with 3 have "suffix p a" by simp
    then show ?thesis by auto
  qed
next
  assume "sublist p a \<or> sublist p b"
  then show "sublist p (a @ c # b)"
    by (auto simp: sublist_append sublist_Cons_right)
qed

lemma sublist_separator2:
  assumes "c \<notin> set p"
  shows "sublist p (a @ a' @ c # b) \<longleftrightarrow> sublist p (a @ a') \<or> sublist p b"
  using sublist_separator[OF assms, of "a @ a'" b] by simp


lemma decimal_no_eq: "CHR ''='' \<notin> set (decimal n)"
proof (induction n rule: decimal.induct)
  case (1 n)
  have m: "''0123456789'' ! nat k \<noteq> CHR ''=''" if "k < 10" for k :: int
  proof -
    have "nat k < length ''0123456789''" using that by simp
    then have "''0123456789'' ! nat k \<in> set ''0123456789''" by (rule nth_mem)
    then show ?thesis by auto
  qed
  show ?case
  proof (cases "n < 10")
    case True
    then have "decimal n = [''0123456789'' ! nat n]"
      by (simp add: decimal.simps)
    with m[OF True] show ?thesis by simp
  next
    case False
    then have "decimal n = decimal (n div 10) @ [''0123456789'' ! nat (n mod 10)]"
      by (subst decimal.simps) simp
    moreover have "n mod 10 < 10" by simp
    ultimately show ?thesis
      using 1[OF False] m[of "n mod 10"] by simp
  qed
qed

lemma strip_zeros_no_eq: "CHR ''='' \<notin> set ds \<Longrightarrow> CHR ''='' \<notin> set (strip_zeros ds)"
  unfolding strip_zeros_def using set_dropWhileD by fastforce

lemma try_digits_no_eq:
  "try_digits x n d p k = Some (ds, q) \<Longrightarrow> CHR ''='' \<notin> set ds"
  unfolding try_digits_def Let_def
  using strip_zeros_no_eq[OF decimal_no_eq]
  by (auto split: if_splits)

lemma find_digits_no_eq: "CHR ''='' \<notin> set (fst (find_digits x n d p ks))"
proof (induction ks)
  case Nil
  then show ?case using decimal_no_eq by simp
next
  case (Cons k ks)
  show ?case
  proof (cases "try_digits x n d p k")
    case None
    then show ?thesis using Cons by simp
  next
    case (Some a)
    then show ?thesis using try_digits_no_eq[of x n d p k "fst a" "snd a"] by simp
  qed
qed

lemma format_repr_no_eq:
  assumes "CHR ''='' \<notin> set ds"
  shows "CHR ''='' \<notin> set (format_repr ds decpt)"
proof -
  have t: "CHR ''='' \<notin> set (take k ds)" for k
    using assms in_set_takeD by fastforce
  have d: "CHR ''='' \<notin> set (drop k ds)" for k
    using assms in_set_dropD by fastforce
  show ?thesis
    unfolding format_repr_def using t d assms decimal_no_eq
    by simp
qed

lemma repr_no_eq: "CHR ''='' \<notin> set (py_repr_float x)"
proof (cases x)
  case (Finite neg m e)
  obtain ds decpt where s: "shortest_digits m e = (ds, decpt)"
    by (cases "shortest_digits m e")
  have "CHR ''='' \<notin> set ds"
    using find_digits_no_eq[of "Finite False m e" "m * 2 ^ nat e" "2 ^ nat (- e)"
        "decimal_point (m * 2 ^ nat e) (2 ^ nat (- e))" "[1..17]"] s
    by (simp add: shortest_digits_def Let_def)
  from format_repr_no_eq[OF this, of decpt] show ?thesis
    using Finite s by simp
next
  case (Infinity neg)
  then show ?thesis by simp
next
  case NaN
  then show ?thesis by simp
qed

lemma repr_no_trslc: "\<not> sublist ''--trslc='' (py_repr_float x)"
proof
  assume "sublist ''--trslc='' (py_repr_float x)"
  then have "set ''--trslc='' \<subseteq> set (py_repr_float x)"
    by (rule set_mono_sublist)
  with repr_no_eq[of x] show False by simp
qed

lemma ge_no_trslc:
  assumes "lower s = ''ge''"
  shows "\<not> sublist ''--trslc='' s"
proof
  assume "sublist ''--trslc='' s"
  then have "length ''--trslc='' \<le> length s"
    by (rule sublist_length_le)
  moreover have "length s = length (lower s)"
    by (simp add: lower_def)
  ultimately show False using assms by simp
qed


lemma pulse_ge_no_trslc:
  assumes "lower (get params ''seqtype'' ''epi'') = ''ge''"
    and "\<forall>v \<in> set (pulse_values params). \<not> sublist ''--trslc='' v"
  shows "\<not> sublist ''--trslc='' (pulse_cmd params r)"
proof -
  have s: "\<not> sublist ''--trslc='' (get params ''seqtype'' ''epi'')"
    using assms(1) by (rule ge_no_trslc)
  have t: "pulse_trslc params = []"
    using assms(1) by (simp add: pulse_trslc_def)
  show ?thesis
    using assms(2) s repr_no_trslc[of "newpixdim3 r"]
    unfolding pulse_cmd_def pulse_head_def t pulse_tail_def pulse_plane_def pulse_rest_def
      pulse_values_def
    by (simp add: sublist_separator sublist_separator2 sublist_Cons_right)
qed

lemma pulse_epi_trslc:
  assumes "lower (get params ''seqtype'' ''epi'') = ''epi''"
  shows "sublist ''--trslc='' (pulse_cmd params r)"
proof -
  have "pulse_cmd params r = pulse_head params @ ''--trslc=''
      @ (get params ''trslc'' ''0.12'' @ '' '' @ pulse_tail params r
         @ '' >> '' @ out params @ ''/possum.log 2>&1'')"
    using assms by (simp add: pulse_cmd_def pulse_trslc_def)
  then show ?thesis
    unfolding sublist_def by blast
qed


lemma ge_te_generate:
  "generate_shell_commands ge_te_params
     = Inr (object_cmds ge_te_params default_ref @ [ge_te_pulse] @ final_cmds ge_te_params)"
proof -
  have c: "compute_brain_ref ge_te_params = Inr default_ref"
    by code_simp
  have "mrpar_cmds ge_te_params = []" "slcprof_cmds ge_te_params = []"
    "mot_cmds ge_te_params = []" "act1_cmds ge_te_params = []" "act2_cmds ge_te_params = []"
    "b0f_cmds ge_te_params = []" "noise_cmds ge_te_params = []"
    by code_simp+
  moreover have "pulse_cmds ge_te_params default_ref = [ge_te_pulse]"
    by code_simp
  ultimately show ?thesis
    unfolding generate_Inr_iff using c by simp
qed

text \<open>
  C5, as stated, with the sequence type \<open>ge\<close> and the echo time
  \<^verbatim>\<open>--trslc=1\<close>: parameter values are inserted as they are, and the
  generated \<^verbatim>\<open>pulse\<close> command contains \<^verbatim>\<open>--trslc=\<close>.
\<close>

theorem ge_pulse_trslc_counterexample:
  "lower (get ge_te_params ''seqtype'' ''epi'') = ''ge''
   \<and> generate_shell_commands ge_te_params
       = Inr (object_cmds ge_te_params default_ref @ [ge_te_pulse] @ final_cmds ge_te_params)
   \<and> ge_te_pulse =
       ''/usr/local/fsl/bin/pulse -i ./simdir/brain -o ./simdir/pulse --seq=ge --te=--trslc=1 ''
       @ ''--tr=3 --nx=64 --ny=64 --numslc=1 --dx=4.0 --dy=4.0 --slcthk=1.0 --numvol=1 ''
       @ ''--zstart=0 --bw=100000 --readdir=x+ --phasedir=y+ --slcdir=z+ --maxG=0.055 ''
       @ ''--riset=0.00022 -v >> ./simdir/possum.log 2>&1''
   \<and> sublist ''--trslc='' ge_te_pulse"
proof -
  have "lower (get ge_te_params ''seqtype'' ''epi'') = ''ge''"
    by code_simp
  moreover have "sublist ''--trslc='' ge_te_pulse"
    by code_simp
  ultimately show ?thesis
    using ge_te_generate by (simp add: ge_te_pulse_def)
qed

text \<open>
  C5, amended: when the sequence type lowers to \<open>epi\<close> the generated \<^verbatim>\<open>pulse\<close>
  command contains \<^verbatim>\<open>--trslc=\<close>; when it lowers to \<open>ge\<close> the command has no
  such argument of its own, and does not contain \<^verbatim>\<open>--trslc=\<close> unless one of
  the interpolated parameter texts does.
\<close>

theorem pulse_trslc_argument:
  assumes "generate_shell_commands params = Inr cmds"
  shows "(lower (get params ''seqtype'' ''epi'') = ''epi'' \<longrightarrow>
            (\<exists>r pre post. compute_brain_ref params = Inr r
               \<and> cmds = pre @ [pulse_cmd params r] @ post
               \<and> sublist ''--trslc='' (pulse_cmd params r)))
       \<and> (lower (get params ''seqtype'' ''epi'') = ''ge''
            \<and> (\<forall>v \<in> set (pulse_values params). \<not> sublist ''--trslc='' v) \<longrightarrow>
            (\<exists>r pre post. compute_brain_ref params = Inr r
               \<and> cmds = pre @ [pulse_cmd params r] @ post
               \<and> \<not> sublist ''--trslc='' (pulse_cmd params r)))"
proof -
  from assms obtain r where r: "compute_brain_ref params = Inr r"
    and c: "cmds = object_cmds params r
            @ mrpar_cmds params @ slcprof_cmds params @ mot_cmds params
            @ act1_cmds params @ act2_cmds params
            @ b0f_cmds params
            @ pulse_cmds params r
            @ noise_cmds params
            @ final_cmds params"
    unfolding generate_Inr_iff by (elim exE conjE)
  let ?pre = "object_cmds params r
            @ mrpar_cmds params @ slcprof_cmds params @ mot_cmds params
            @ act1_cmds params @ act2_cmds params
            @ b0f_cmds params"
  let ?post = "noise_cmds params @ final_cmds params"
  have A: "cmds = ?pre @ [pulse_cmd params r] @ ?post"
    if "lower (get params ''seqtype'' ''epi'') = ''epi''
        \<or> lower (get params ''seqtype'' ''epi'') = ''ge''"
    unfolding c using that by (auto simp: pulse_cmds_def)
  show ?thesis
  proof (intro conjI impI)
    assume e: "lower (get params ''seqtype'' ''epi'') = ''epi''"
    show "\<exists>r pre post. compute_brain_ref params = Inr r
               \<and> cmds = pre @ [pulse_cmd params r] @ post
               \<and> sublist ''--trslc='' (pulse_cmd params r)"
      by (rule exI[of _ r], rule exI[of _ "?pre"], rule exI[of _ "?post"],
          intro conjI r A disjI1 e pulse_epi_trslc)
  next
    assume g: "lower (get params ''seqtype'' ''epi'') = ''ge''
            \<and> (\<forall>v \<in> set (pulse_values params). \<not> sublist ''--trslc='' v)"
    then have g1: "lower (get params ''seqtype'' ''epi'') = ''ge''"
      and g2: "\<forall>v \<in> set (pulse_values params). \<not> sublist ''--trslc='' v"
      by simp_all
    show "\<exists>r pre post. compute_brain_ref params = Inr r
               \<and> cmds = pre @ [pulse_cmd params r] @ post
               \<and> \<not> sublist ''--trslc='' (pulse_cmd params r)"
      by (rule exI[of _ r], rule exI[of _ "?pre"], rule exI[of _ "?post"],
          intro conjI r A disjI2 g1 pulse_ge_no_trslc[OF g1 g2])
  qed
qed

theorem pulse_trslc_argument_witness:
  "(\<exists>cmds r pre post. generate_shell_commands noise_params = Inr cmds
      \<and> compute_brain_ref noise_params = Inr r
      \<and> cmds = pre @ [pulse_cmd noise_params r] @ post
      \<and> sublist ''--trslc='' (pulse_cmd noise_params r))
   \<and> (\<exists>cmds r pre post. generate_shell_commands ge_params = Inr cmds
      \<and> compute_brain_ref ge_params = Inr r
      \<and> cmds = pre @ [pulse_cmd ge_params r] @ post
      \<and> \<not> sublist ''--trslc='' (pulse_cmd ge_params r))"
proof (intro conjI)
  obtain cmds where c: "generate_shell_commands noise_params = Inr cmds"
    using generate_returns[OF compute_defaults(1)] by (elim exE)
  have e: "lower (get noise_params ''seqtype'' ''epi'') = ''epi''"
    by code_simp
  from pulse_trslc_argument[OF c] e c
  show "\<exists>cmds r pre post. generate_shell_commands noise_params = Inr cmds
      \<and> compute_brain_ref noise_params = Inr r
      \<and> cmds = pre @ [pulse_cmd noise_params r] @ post
      \<and> sublist ''--trslc='' (pulse_cmd noise_params r)"
    by (intro exI[of _ cmds]) simp
next
  have d: "compute_brain_ref ge_params = Inr default_ref"
    by code_simp
  obtain cmds where c: "generate_shell_commands ge_params = Inr cmds"
    using generate_returns[OF d] by (elim exE)
  have g: "lower (get ge_params ''seqtype'' ''epi'') = ''ge''"
    by code_simp
  have v: "\<forall>v \<in> set (pulse_values ge_params). \<not> sublist ''--trslc='' v"
    by code_simp
  from pulse_trslc_argument[OF c] g v c
  show "\<exists>cmds r pre post. generate_shell_commands ge_params = Inr cmds
      \<and> compute_brain_ref ge_params = Inr r
      \<and> cmds = pre @ [pulse_cmd ge_params r] @ post
      \<and> \<not> sublist ''--trslc='' (pulse_cmd ge_params r)"
    by (intro exI[of _ cmds]) simp
qed

end
